theory Spec2Isabelle
  imports Main "HOL-Library.AList" "HOL-Library.Sublist" "HOL-Library.Multiset"
begin

section \<open>The \<open>up\<close> command of the dev tool (cmd/up.go)\<close>

subsection \<open>Data\<close>

text \<open>
  A Go \<open>error\<close> value is modelled by its message; \<open>nil\<close> is \<open>None\<close>.
\<close>

type_synonym err = string

text \<open>
  The configuration and compose types are declared in packages the file imports
  (\<open>config\<close>, \<open>compose\<close>); the records below hold the fields that cmd/up.go reads.
  A Go map that the code only ranges over is given as the list of its entries in the
  order the \<open>range\<close> statement visits them. The type of a network's creation options
  is the parameter \<open>'o\<close>.
\<close>

record Registry =
  r_URL :: string
  r_Name :: string
  r_Password :: string
  r_ContinueOnFailure :: bool

record 'o Dev =
  Networks :: "(string \<times> 'o) list"
  Registries :: "Registry list"
  ImagePrefix :: string

record Project =
  p_Name :: string
  p_Directory :: string
  p_DockerComposeFilenames :: "string list"

record Service =
  s_Name :: string
  s_Networks :: "string list"

record ComposeConfig =
  Services :: "Service list"

text \<open>
  The maps the code builds (\<open>networkIDMap\<close>, \<open>serviceNetworkMap\<close>) are association
  lists with one entry per key: \<open>map_of\<close> reads a key, \<open>AList.update\<close> assigns one.
\<close>

type_synonym networkIDMap = "(string \<times> string) list"
type_synonym serviceNetworkMap = "(string \<times> string list) list"

subsection \<open>Effects\<close>

text \<open>
  Every call that leaves the file and every log line is an event, recorded with what
  the call returned. \<open>log.Fatal\<close> writes its line and ends the process; \<open>Exited\<close> is
  the process ending inside \<open>runDockerCompose\<close>.
\<close>

datatype level = DebugLevel | InfoLevel | WarnLevel | FatalLevel

datatype 'o event =
    LoginCall string string string "err option"
  | NetworkIDFromNameCall string string "err option"
  | NetworkCreateCall string 'o string "err option"
  | ParseCall string string ComposeConfig "err option"
  | RemoveContainerIfRequiredCall string string "string list" "err option"
  | RunDockerComposeCall string string "string list" "string list" bool
  | LogEntry level string

datatype abort = Fatal string | Exited

text \<open>
  The functions of the other packages are parameters: each one maps the state \<open>'w\<close> of
  the world outside the program to what the call returns and the world after it.
  \<open>ext_rangeOrder\<close> ranks the keys of a map the program has built itself: \<open>range\<close>
  visits a Go map in an order the runtime chooses, here the entries sorted by rank.
\<close>

record ('w, 'o) extern =
  ext_Login :: "string \<Rightarrow> string \<Rightarrow> string \<Rightarrow> 'w \<Rightarrow> err option \<times> 'w"
  ext_NetworkIDFromName :: "string \<Rightarrow> 'w \<Rightarrow> (string \<times> err option) \<times> 'w"
  ext_NetworkCreate :: "string \<Rightarrow> 'o \<Rightarrow> 'w \<Rightarrow> (string \<times> err option) \<times> 'w"
  ext_Parse :: "string \<Rightarrow> string \<Rightarrow> 'w \<Rightarrow> (ComposeConfig \<times> err option) \<times> 'w"
  ext_RemoveContainerIfRequired ::
    "string \<Rightarrow> string \<Rightarrow> string list \<Rightarrow> 'w \<Rightarrow> err option \<times> 'w"
  ext_runDockerCompose ::
    "string \<Rightarrow> string \<Rightarrow> string list \<Rightarrow> string list \<Rightarrow> 'w \<Rightarrow> bool \<times> 'w"
  ext_rangeOrder :: "string \<Rightarrow> nat"

text \<open>
  A piece of the program takes the world and gives its outcome (\<open>Inl\<close>: the process
  ended), the world after it and the events it produced, in order.
\<close>

type_synonym ('a, 'w, 'o) prog = "'w \<Rightarrow> (abort + 'a) \<times> 'w \<times> 'o event list"

definition ret :: "'a \<Rightarrow> ('a, 'w, 'o) prog" where
  "ret x = (\<lambda>w. (Inr x, w, []))"

definition bind :: "('a, 'w, 'o) prog \<Rightarrow> ('a \<Rightarrow> ('b, 'w, 'o) prog) \<Rightarrow> ('b, 'w, 'o) prog" where
  "bind m f = (\<lambda>w. case m w of
      (Inl a, w1, t1) \<Rightarrow> (Inl a, w1, t1)
    | (Inr x, w1, t1) \<Rightarrow> (case f x w1 of (r, w2, t2) \<Rightarrow> (r, w2, t1 @ t2)))"

definition logf :: "level \<Rightarrow> string \<Rightarrow> (unit, 'w, 'o) prog" where
  "logf lv msg = (\<lambda>w. (Inr (), w, [LogEntry lv msg]))"

definition log_Fatal :: "string \<Rightarrow> ('a, 'w, 'o) prog" where
  "log_Fatal msg = (\<lambda>w. (Inl (Fatal msg), w, [LogEntry FatalLevel msg]))"

definition registry_Login ::
  "('w, 'o) extern \<Rightarrow> string \<Rightarrow> string \<Rightarrow> string \<Rightarrow> (err option, 'w, 'o) prog" where
  "registry_Login E url name password = (\<lambda>w.
     case ext_Login E url name password w of
       (e, w1) \<Rightarrow> (Inr e, w1, [LoginCall url name password e]))"

definition docker_NetworkIDFromName ::
  "('w, 'o) extern \<Rightarrow> string \<Rightarrow> (string \<times> err option, 'w, 'o) prog" where
  "docker_NetworkIDFromName E name = (\<lambda>w.
     case ext_NetworkIDFromName E name w of
       ((i, e), w1) \<Rightarrow> (Inr (i, e), w1, [NetworkIDFromNameCall name i e]))"

definition docker_NetworkCreate ::
  "('w, 'o) extern \<Rightarrow> string \<Rightarrow> 'o \<Rightarrow> (string \<times> err option, 'w, 'o) prog" where
  "docker_NetworkCreate E name opts = (\<lambda>w.
     case ext_NetworkCreate E name opts w of
       ((i, e), w1) \<Rightarrow> (Inr (i, e), w1, [NetworkCreateCall name opts i e]))"

definition compose_Parse ::
  "('w, 'o) extern \<Rightarrow> string \<Rightarrow> string \<Rightarrow> (ComposeConfig \<times> err option, 'w, 'o) prog" where
  "compose_Parse E dir file = (\<lambda>w.
     case ext_Parse E dir file w of
       ((c, e), w1) \<Rightarrow> (Inr (c, e), w1, [ParseCall dir file c e]))"

definition docker_RemoveContainerIfRequired ::
  "('w, 'o) extern \<Rightarrow> string \<Rightarrow> string \<Rightarrow> string list \<Rightarrow> (err option, 'w, 'o) prog" where
  "docker_RemoveContainerIfRequired E name networkID services = (\<lambda>w.
     case ext_RemoveContainerIfRequired E name networkID services w of
       (e, w1) \<Rightarrow> (Inr e, w1, [RemoveContainerIfRequiredCall name networkID services e]))"

text \<open>
  \<open>runDockerCompose\<close> belongs to the same package and is declared in another file. It
  gives no value back: the call either returns or the process ends inside it.
\<close>

definition runDockerCompose ::
  "('w, 'o) extern \<Rightarrow> string \<Rightarrow> string \<Rightarrow> string list \<Rightarrow> string list \<Rightarrow> (unit, 'w, 'o) prog" where
  "runDockerCompose E imagePrefix cmd composePaths args = (\<lambda>w.
     case ext_runDockerCompose E imagePrefix cmd composePaths args w of
       (returned, w1) \<Rightarrow>
         (if returned then Inr () else Inl Exited, w1,
          [RunDockerComposeCall imagePrefix cmd composePaths args returned]))"

subsection \<open>networksCreate\<close>

text \<open>
  The body of the loop (lines 21 to 35) gives the identifier that line 36 stores under
  the network's name. The line "Created ..." is logged before the error of the
  creation is looked at.
\<close>

definition networksCreate_body :: "('w, 'o) extern \<Rightarrow> string \<Rightarrow> 'o \<Rightarrow> (string, 'w, 'o) prog" where
  "networksCreate_body E name opts =
     bind (docker_NetworkIDFromName E name) (\<lambda>(networkID, err).
     bind (case err of
             Some e \<Rightarrow> log_Fatal (''Error checking if network '' @ name @ '' exists: '' @ e)
           | None \<Rightarrow> ret ()) (\<lambda>_.
     if networkID = '''' then
       bind (docker_NetworkCreate E name opts) (\<lambda>(networkID, err).
       bind (logf InfoLevel (''Created '' @ name @ '' network '' @ networkID)) (\<lambda>_.
       bind (case err of Some e \<Rightarrow> log_Fatal e | None \<Rightarrow> ret ()) (\<lambda>_.
       ret networkID)))
     else
       bind (logf DebugLevel (''Network '' @ name @ '' already exists with id '' @ networkID))
         (\<lambda>_. ret networkID)))"

fun networksCreate_loop ::
  "('w, 'o) extern \<Rightarrow> (string \<times> 'o) list \<Rightarrow> networkIDMap \<Rightarrow> (networkIDMap, 'w, 'o) prog" where
  "networksCreate_loop E [] networkIDMap = ret networkIDMap"
| "networksCreate_loop E ((name, opts) # rest) networkIDMap =
     bind (networksCreate_body E name opts) (\<lambda>networkID.
     networksCreate_loop E rest (AList.update name networkID networkIDMap))"

definition networksCreate :: "('w, 'o) extern \<Rightarrow> 'o Dev \<Rightarrow> (networkIDMap, 'w, 'o) prog" where
  "networksCreate E appConfig = networksCreate_loop E (Networks appConfig) []"

subsection \<open>registriesLogin\<close>

definition login_failed_msg :: "Registry \<Rightarrow> err \<Rightarrow> string" where
  "login_failed_msg r e = ''Failed to login to '' @ r_Name r @ '' registry: '' @ e"

text \<open>The body of the loop (lines 45 to 55).\<close>

definition registriesLogin_body :: "('w, 'o) extern \<Rightarrow> Registry \<Rightarrow> (unit, 'w, 'o) prog" where
  "registriesLogin_body E r =
     bind (registry_Login E (r_URL r) (r_Name r) (r_Password r)) (\<lambda>err.
     case err of
       Some e \<Rightarrow>
         if r_ContinueOnFailure r then logf WarnLevel (login_failed_msg r e)
         else log_Fatal (login_failed_msg r e)
     | None \<Rightarrow> logf DebugLevel (''Logged in to registry '' @ r_Name r @ '' at '' @ r_URL r))"

fun registriesLogin_loop :: "('w, 'o) extern \<Rightarrow> Registry list \<Rightarrow> (unit, 'w, 'o) prog" where
  "registriesLogin_loop E [] = ret ()"
| "registriesLogin_loop E (r # rest) =
     bind (registriesLogin_body E r) (\<lambda>_. registriesLogin_loop E rest)"

definition registriesLogin :: "('w, 'o) extern \<Rightarrow> 'o Dev \<Rightarrow> (unit, 'w, 'o) prog" where
  "registriesLogin E appConfig = registriesLogin_loop E (Registries appConfig)"

subsection \<open>createNetworkServiceMap\<close>

text \<open>
  Reading a key that a Go map does not hold gives the zero value: the nil slice for
  \<open>serviceNetworkMap[name]\<close>, the empty string for \<open>networkIDMap[networkName]\<close>.
\<close>

definition services_of :: "serviceNetworkMap \<Rightarrow> string \<Rightarrow> string list" where
  "services_of m name = (case map_of m name of None \<Rightarrow> [] | Some l \<Rightarrow> l)"

definition id_of :: "networkIDMap \<Rightarrow> string \<Rightarrow> string" where
  "id_of m name = (case map_of m name of None \<Rightarrow> '''' | Some i \<Rightarrow> i)"

text \<open>
  The two inner loops (lines 70 to 76) call nothing outside the program: the loop over
  the networks of one service, then the loop over the services of one compose file.
\<close>

fun addNetworks ::
  "networkIDMap \<Rightarrow> string \<Rightarrow> string list \<Rightarrow> serviceNetworkMap \<Rightarrow> serviceNetworkMap" where
  "addNetworks networkIDMap serviceName [] m = m"
| "addNetworks networkIDMap serviceName (name # rest) m =
     addNetworks networkIDMap serviceName rest
       (if map_of networkIDMap name \<noteq> None
        then AList.update name (services_of m name @ [serviceName]) m
        else m)"

fun addServices :: "networkIDMap \<Rightarrow> Service list \<Rightarrow> serviceNetworkMap \<Rightarrow> serviceNetworkMap" where
  "addServices networkIDMap [] m = m"
| "addServices networkIDMap (service # rest) m =
     addServices networkIDMap rest
       (addNetworks networkIDMap (s_Name service) (s_Networks service) m)"

text \<open>The parse of one compose file (lines 65 to 68).\<close>

definition parse_body :: "('w, 'o) extern \<Rightarrow> string \<Rightarrow> string \<Rightarrow> (ComposeConfig, 'w, 'o) prog" where
  "parse_body E dir composeFilename =
     bind (compose_Parse E dir composeFilename) (\<lambda>(composeConfig, err).
     case err of
       Some e \<Rightarrow> log_Fatal (''Failed to parse docker-compose appConfig file: '' @ e)
     | None \<Rightarrow> ret composeConfig)"

fun createNetworkServiceMap_loop ::
  "('w, 'o) extern \<Rightarrow> string \<Rightarrow> string list \<Rightarrow> networkIDMap \<Rightarrow> serviceNetworkMap \<Rightarrow>
   (serviceNetworkMap, 'w, 'o) prog" where
  "createNetworkServiceMap_loop E dir [] networkIDMap m = ret m"
| "createNetworkServiceMap_loop E dir (composeFilename # rest) networkIDMap m =
     bind (parse_body E dir composeFilename) (\<lambda>composeConfig.
     createNetworkServiceMap_loop E dir rest networkIDMap
       (addServices networkIDMap (Services composeConfig) m))"

definition createNetworkServiceMap ::
  "('w, 'o) extern \<Rightarrow> 'o Dev \<Rightarrow> Project \<Rightarrow> networkIDMap \<Rightarrow> (serviceNetworkMap, 'w, 'o) prog" where
  "createNetworkServiceMap E devConfig project networkIDMap =
     createNetworkServiceMap_loop E (p_Directory project) (p_DockerComposeFilenames project)
       networkIDMap []"

subsection \<open>verifyContainerConfig\<close>

text \<open>
  \<open>range\<close> over the service map visits its entries in an order the runtime chooses:
  the entries sorted by the rank \<open>ext_rangeOrder\<close> gives to their keys. The sort is
  stable, so every order of the entries is the order of some rank (\<open>rangeMap_any_order\<close>
  below). The body of the loop is lines 96 to 100.
\<close>

definition rangeMap :: "('w, 'o) extern \<Rightarrow> serviceNetworkMap \<Rightarrow> serviceNetworkMap" where
  "rangeMap E m = sort_key (\<lambda>entry. ext_rangeOrder E (fst entry)) m"

definition remove_body ::
  "('w, 'o) extern \<Rightarrow> networkIDMap \<Rightarrow> string \<Rightarrow> string list \<Rightarrow> (unit, 'w, 'o) prog" where
  "remove_body E networkIDMap networkName services =
     bind (docker_RemoveContainerIfRequired E networkName (id_of networkIDMap networkName)
             services) (\<lambda>err.
     case err of Some e \<Rightarrow> log_Fatal e | None \<Rightarrow> ret ())"

fun remove_loop ::
  "('w, 'o) extern \<Rightarrow> networkIDMap \<Rightarrow> serviceNetworkMap \<Rightarrow> (unit, 'w, 'o) prog" where
  "remove_loop E networkIDMap [] = ret ()"
| "remove_loop E networkIDMap ((networkName, services) # rest) =
     bind (remove_body E networkIDMap networkName services) (\<lambda>_.
     remove_loop E networkIDMap rest)"

definition verifyContainerConfig ::
  "('w, 'o) extern \<Rightarrow> 'o Dev \<Rightarrow> Project \<Rightarrow> networkIDMap \<Rightarrow> (unit, 'w, 'o) prog" where
  "verifyContainerConfig E appConfig project networkIDMap =
     (if length networkIDMap = 0 then ret ()
      else bind (createNetworkServiceMap E appConfig project networkIDMap)
             (\<lambda>networkServiceMap. remove_loop E networkIDMap (rangeMap E networkServiceMap)))"

subsection \<open>Up\<close>

definition Up :: "('w, 'o) extern \<Rightarrow> 'o Dev \<Rightarrow> Project \<Rightarrow> bool \<Rightarrow> (unit, 'w, 'o) prog" where
  "Up E appConfig project tailLogs =
     bind (registriesLogin E appConfig) (\<lambda>_.
     bind (networksCreate E appConfig) (\<lambda>networkIDMap.
     bind (verifyContainerConfig E appConfig project networkIDMap) (\<lambda>_.
     bind (runDockerCompose E (ImagePrefix appConfig) ''up''
             (p_DockerComposeFilenames project) [''-d'']) (\<lambda>_.
     if tailLogs
     then runDockerCompose E (ImagePrefix appConfig) ''logs''
            (p_DockerComposeFilenames project) [''-f'', p_Name project]
     else ret ()))))"

subsection \<open>Reading a run\<close>

text \<open>The calls of each kind among the events of a run, in order.\<close>

definition logins :: "'o event list \<Rightarrow> (string \<times> string \<times> string) list" where
  "logins t = concat (map (\<lambda>ev. case ev of LoginCall u n p e \<Rightarrow> [(u, n, p)] | _ \<Rightarrow> []) t)"

definition queries :: "'o event list \<Rightarrow> (string \<times> string \<times> err option) list" where
  "queries t =
     concat (map (\<lambda>ev. case ev of NetworkIDFromNameCall n i e \<Rightarrow> [(n, i, e)] | _ \<Rightarrow> []) t)"

definition creations :: "'o event list \<Rightarrow> (string \<times> 'o \<times> string) list" where
  "creations t =
     concat (map (\<lambda>ev. case ev of NetworkCreateCall n opts i e \<Rightarrow> [(n, opts, i)] | _ \<Rightarrow> []) t)"

definition parses :: "'o event list \<Rightarrow> (string \<times> string) list" where
  "parses t = concat (map (\<lambda>ev. case ev of ParseCall d f c e \<Rightarrow> [(d, f)] | _ \<Rightarrow> []) t)"

definition parsedConfigs :: "'o event list \<Rightarrow> ComposeConfig list" where
  "parsedConfigs t = concat (map (\<lambda>ev. case ev of ParseCall d f c None \<Rightarrow> [c] | _ \<Rightarrow> []) t)"

definition removals :: "'o event list \<Rightarrow> (string \<times> string \<times> string list) list" where
  "removals t =
     concat (map (\<lambda>ev. case ev of RemoveContainerIfRequiredCall n i s e \<Rightarrow> [(n, i, s)] | _ \<Rightarrow> []) t)"

definition composeRuns :: "'o event list \<Rightarrow> (string \<times> string \<times> string list \<times> string list) list" where
  "composeRuns t =
     concat (map (\<lambda>ev. case ev of RunDockerComposeCall p c fs as r \<Rightarrow> [(p, c, fs, as)] | _ \<Rightarrow> []) t)"

text \<open>
  The stage of the driver a call belongs to: 0 registry login, 1 network ensure,
  2 container reconciliation, 3 compose up, 4 log tail. Log lines are not calls.
\<close>

fun stage :: "'o event \<Rightarrow> nat option" where
  "stage (LoginCall u n p e) = Some 0"
| "stage (NetworkIDFromNameCall n i e) = Some 1"
| "stage (NetworkCreateCall n opts i e) = Some 1"
| "stage (ParseCall d f c e) = Some 2"
| "stage (RemoveContainerIfRequiredCall n i s e) = Some 2"
| "stage (RunDockerComposeCall p c fs as r) = (if c = ''up'' then Some 3 else Some 4)"
| "stage (LogEntry lv msg) = None"

definition stages :: "'o event list \<Rightarrow> nat list" where
  "stages t = concat (map (\<lambda>ev. case stage ev of Some k \<Rightarrow> [k] | None \<Rightarrow> []) t)"

text \<open>
  The services of the parsed compose files that refer to a network, one entry for
  every reference, in the order of the files, of their services and of the references.
\<close>

definition references :: "string \<Rightarrow> Service \<Rightarrow> string list" where
  "references name service = map (\<lambda>_. s_Name service) (filter (\<lambda>k. k = name) (s_Networks service))"

definition dependentServices :: "string \<Rightarrow> ComposeConfig list \<Rightarrow> string list" where
  "dependentServices name cs =
     concat (map (\<lambda>c. concat (map (references name) (Services c))) cs)"

text \<open>The arguments of the login call made for a registry.\<close>

definition registry_key :: "Registry \<Rightarrow> string \<times> string \<times> string" where
  "registry_key r = (r_URL r, r_Name r, r_Password r)"

text \<open>The errors that removal calls returned.\<close>

definition removalErrors :: "'o event list \<Rightarrow> err list" where
  "removalErrors t =
     concat (map (\<lambda>ev. case ev of RemoveContainerIfRequiredCall n i s (Some e) \<Rightarrow> [e] | _ \<Rightarrow> []) t)"

text \<open>The removal call that verifyContainerConfig makes for an entry of the service map.\<close>

definition removal_of :: "networkIDMap \<Rightarrow> string \<times> string list \<Rightarrow> string \<times> string \<times> string list" where
  "removal_of networkIDMap entry = (fst entry, id_of networkIDMap (fst entry), snd entry)"

text \<open>
  How many times the parsed compose files attach a service of the given name to the
  given network: one for every file, every service of that name in it and every
  reference of that service to the network.
\<close>

definition referenceCount :: "string \<Rightarrow> string \<Rightarrow> ComposeConfig list \<Rightarrow> nat" where
  "referenceCount name serviceName cs =
     sum_list (map (\<lambda>c. sum_list (map (\<lambda>s.
        if s_Name s = serviceName then length (filter (\<lambda>k. k = name) (s_Networks s)) else 0)
        (Services c))) cs)"

text \<open>
  What the parser answers for a list of compose files, asked file by file in the order
  of the list, starting from a given world: the parsed files and the world after the
  last answer, or \<open>None\<close> when the parser returns an error for one of them.
\<close>

fun parseAll ::
  "('w, 'o) extern \<Rightarrow> string \<Rightarrow> string list \<Rightarrow> 'w \<Rightarrow> (ComposeConfig list \<times> 'w) option" where
  "parseAll E dir [] w = Some ([], w)"
| "parseAll E dir (file # rest) w =
     (case ext_Parse E dir file w of
        ((c, Some e), w1) \<Rightarrow> None
      | ((c, None), w1) \<Rightarrow>
          (case parseAll E dir rest w1 of
             None \<Rightarrow> None
           | Some (cs, w2) \<Rightarrow> Some (c # cs, w2)))"

subsection \<open>A concrete run\<close>

text \<open>
  A small world for evaluating the program: the state of the world is the list of the
  networks that exist, with their identifiers. Creating a network adds it; a login
  with the password \<open>wrong\<close> is refused; every compose file holds the service \<open>A\<close> on
  the network \<open>x\<close> and the service \<open>B\<close> on the network \<open>y\<close>.
\<close>

definition demoCompose :: ComposeConfig where
  "demoCompose = \<lparr>Services =
     [\<lparr>s_Name = ''A'', s_Networks = [''x'']\<rparr>, \<lparr>s_Name = ''B'', s_Networks = [''y'']\<rparr>]\<rparr>"

definition demoExtern :: "((string \<times> string) list, string) extern" where
  "demoExtern = \<lparr>
     ext_Login = (\<lambda>url name password w.
        (if password = ''wrong'' then Some ''denied'' else None, w)),
     ext_NetworkIDFromName = (\<lambda>name w. ((id_of w name, None), w)),
     ext_NetworkCreate = (\<lambda>name opts w. ((''id-'' @ name, None), w @ [(name, ''id-'' @ name)])),
     ext_Parse = (\<lambda>dir file w. ((demoCompose, None), w)),
     ext_RemoveContainerIfRequired = (\<lambda>name networkID services w. (None, w)),
     ext_runDockerCompose = (\<lambda>imagePrefix cmd composePaths args w. (True, w)),
     ext_rangeOrder = (\<lambda>name. 0)\<rparr>"

definition demoWorld :: "(string \<times> string) list" where
  "demoWorld = [(''z'', ''7f3a'')]"

definition demoConfig :: "string Dev" where
  "demoConfig = \<lparr>
     Networks = [(''x'', ''bridge''), (''z'', ''overlay'')],
     Registries =
       [\<lparr>r_URL = ''r1.example'', r_Name = ''mirror'', r_Password = ''wrong'',
         r_ContinueOnFailure = True\<rparr>,
        \<lparr>r_URL = ''r2.example'', r_Name = ''main'', r_Password = ''secret'',
         r_ContinueOnFailure = False\<rparr>],
     ImagePrefix = ''dev''\<rparr>"

definition strictConfig :: "string Dev" where
  "strictConfig = \<lparr>
     Networks = [(''x'', ''bridge''), (''z'', ''overlay'')],
     Registries =
       [\<lparr>r_URL = ''r2.example'', r_Name = ''main'', r_Password = ''wrong'',
         r_ContinueOnFailure = False\<rparr>],
     ImagePrefix = ''dev''\<rparr>"

definition demoProject :: Project where
  "demoProject = \<lparr>p_Name = ''app'', p_Directory = ''/src/app'',
     p_DockerComposeFilenames = [''a.yml'', ''b.yml'']\<rparr>"

definition oneFileProject :: Project where
  "oneFileProject = \<lparr>p_Name = ''app'', p_Directory = ''/src/app'',
     p_DockerComposeFilenames = [''a.yml'']\<rparr>"

text \<open>The same world, where every removal is refused.\<close>

definition refusingExtern :: "((string \<times> string) list, string) extern" where
  "refusingExtern = demoExtern\<lparr>ext_RemoveContainerIfRequired :=
     (\<lambda>name networkID services w. (Some ''container is running'', w))\<rparr>"

section \<open>Properties\<close>

subsection \<open>Sequencing and projections\<close>

lemmas prog_defs = bind_def ret_def logf_def log_Fatal_def
  docker_NetworkIDFromName_def docker_NetworkCreate_def registry_Login_def compose_Parse_def
  docker_RemoveContainerIfRequired_def runDockerCompose_def

lemmas model_defs = Up_def registriesLogin_def registriesLogin_body_def login_failed_msg_def
  networksCreate_def networksCreate_body_def verifyContainerConfig_def createNetworkServiceMap_def
  parse_body_def remove_body_def rangeMap_def services_of_def id_of_def

lemmas demo_defs = demoExtern_def demoWorld_def demoConfig_def strictConfig_def
  demoProject_def oneFileProject_def demoCompose_def

lemma bind_run:
  "bind m f w = (r, w', t) \<longleftrightarrow>
     (\<exists>a. m w = (Inl a, w', t) \<and> r = Inl a) \<or>
     (\<exists>x w1 t1 t2. m w = (Inr x, w1, t1) \<and> f x w1 = (r, w', t2) \<and> t = t1 @ t2)"
  by (auto simp: bind_def split: prod.splits sum.splits)

lemma bind_ret: "bind (ret x) f = f x"
  by (rule ext) (simp add: bind_def ret_def split: prod.splits)

lemma bind_assoc: "bind (bind m f) g = bind m (\<lambda>x. bind (f x) g)"
  by (rule ext) (simp add: bind_def split: prod.splits sum.splits)

lemma bind_Inr:
  "m w = (Inr x, w1, t1) \<Longrightarrow>
     bind m f w = (case f x w1 of (r, w2, t2) \<Rightarrow> (r, w2, t1 @ t2))"
  by (simp add: bind_def)

lemma bind_Inl: "m w = (Inl a, w1, t1) \<Longrightarrow> bind m f w = (Inl a, w1, t1)"
  by (simp add: bind_def)

lemma bindE:
  assumes "bind m f w = (r, w', t)"
  obtains (stop) a where "m w = (Inl a, w', t)" "r = Inl a"
  | (go) x w1 t1 t2 where "m w = (Inr x, w1, t1)" "f x w1 = (r, w', t2)" "t = t1 @ t2"
  using assms by (auto simp: bind_run)

lemma logins_append: "logins (t1 @ t2) = logins t1 @ logins t2"
  by (simp add: logins_def)

lemma queries_append: "queries (t1 @ t2) = queries t1 @ queries t2"
  by (simp add: queries_def)

lemma creations_append: "creations (t1 @ t2) = creations t1 @ creations t2"
  by (simp add: creations_def)

lemma parses_append: "parses (t1 @ t2) = parses t1 @ parses t2"
  by (simp add: parses_def)

lemma parsedConfigs_append: "parsedConfigs (t1 @ t2) = parsedConfigs t1 @ parsedConfigs t2"
  by (simp add: parsedConfigs_def)

lemma removals_append: "removals (t1 @ t2) = removals t1 @ removals t2"
  by (simp add: removals_def)

lemma composeRuns_append: "composeRuns (t1 @ t2) = composeRuns t1 @ composeRuns t2"
  by (simp add: composeRuns_def)

lemma stages_append: "stages (t1 @ t2) = stages t1 @ stages t2"
  by (simp add: stages_def)

lemmas proj_append = logins_append queries_append creations_append parses_append
  parsedConfigs_append removals_append composeRuns_append stages_append

lemmas proj_defs = logins_def queries_def creations_def parses_def parsedConfigs_def
  removals_def composeRuns_def stages_def

subsection \<open>verifyContainerConfig without networks\<close>

text \<open>
  C5. When the network identity map is empty, verifyContainerConfig returns at once:
  it parses no compose file and asks for no removal; the world is left as it was and
  no event is produced.
\<close>

theorem verifyContainerConfig_empty_noop:
  "verifyContainerConfig E appConfig project [] w = (Inr (), w, [])"
  by (simp add: verifyContainerConfig_def ret_def)

subsection \<open>networksCreate\<close>

text \<open>The four ways one pass of the loop body can go, with the events of each.\<close>

lemma networksCreate_body_run:
  assumes "networksCreate_body E name opts w = (r, w', t)"
  shows "(\<exists>i e. t = [NetworkIDFromNameCall name i (Some e),
                     LogEntry FatalLevel (''Error checking if network '' @ name @ '' exists: '' @ e)]
              \<and> r = Inl (Fatal (''Error checking if network '' @ name @ '' exists: '' @ e)))
       \<or> (\<exists>i. i \<noteq> '''' \<and> r = Inr i \<and>
              t = [NetworkIDFromNameCall name i None,
                   LogEntry DebugLevel (''Network '' @ name @ '' already exists with id '' @ i)])
       \<or> (\<exists>i. r = Inr i \<and>
              t = [NetworkIDFromNameCall name '''' None, NetworkCreateCall name opts i None,
                   LogEntry InfoLevel (''Created '' @ name @ '' network '' @ i)])
       \<or> (\<exists>i e. r = Inl (Fatal e) \<and>
              t = [NetworkIDFromNameCall name '''' None, NetworkCreateCall name opts i (Some e),
                   LogEntry InfoLevel (''Created '' @ name @ '' network '' @ i),
                   LogEntry FatalLevel e])"
  using assms
  by (auto simp: networksCreate_body_def prog_defs
      split: prod.splits sum.splits option.splits if_splits)

lemma networksCreate_body_queries:
  assumes "networksCreate_body E name opts w = (r, w', t)"
  shows "\<exists>i e. queries t = [(name, i, e)] \<and>
           (e \<noteq> None \<longrightarrow> creations t = [] \<and> (\<exists>a. r = Inl a)) \<and>
           (e = None \<and> i \<noteq> '''' \<longrightarrow> creations t = [] \<and> r = Inr i) \<and>
           (e = None \<and> i = '''' \<longrightarrow>
              (\<exists>ci. creations t = [(name, opts, ci)] \<and> (\<forall>x. r = Inr x \<longrightarrow> x = ci)))"
  using networksCreate_body_run [OF assms]
  by (auto simp: queries_def creations_def)

lemma networksCreate_loop_Cons:
  assumes "networksCreate_loop E ((name, opts) # nets) m w = (r, w', t)"
  obtains (stop) x where "networksCreate_body E name opts w = (Inl x, w', t)" "r = Inl x"
  | (go) i w1 t1 t2 where "networksCreate_body E name opts w = (Inr i, w1, t1)"
      "networksCreate_loop E nets (AList.update name i m) w1 = (r, w', t2)" "t = t1 @ t2"
  using assms by (auto simp: bind_run)

lemma networksCreate_loop_names:
  "networksCreate_loop E nets m w = (r, w', t) \<Longrightarrow>
     fst ` set (queries t) \<subseteq> fst ` set nets \<and> fst ` set (creations t) \<subseteq> fst ` set nets"
proof (induction nets arbitrary: m w r w' t)
  case Nil
  then show ?case by (simp add: ret_def queries_def creations_def)
next
  case (Cons a nets)
  obtain name opts where a: "a = (name, opts)" by (cases a)
  from Cons.prems [unfolded a] show ?case
  proof (cases rule: networksCreate_loop_Cons)
    case stop
    from networksCreate_body_queries [OF stop(1)] show ?thesis
      by (auto simp: a)
  next
    case go
    from networksCreate_body_queries [OF go(1)] Cons.IH [OF go(2)] show ?thesis
      by (auto simp: a go(3) queries_append creations_append split: if_splits)
  qed
qed

lemma networksCreate_loop_other:
  "networksCreate_loop E nets m w = (Inr m', w', t) \<Longrightarrow> k \<notin> fst ` set nets \<Longrightarrow>
     map_of m' k = map_of m k"
proof (induction nets arbitrary: m w t)
  case Nil
  then show ?case by (simp add: ret_def)
next
  case (Cons a nets)
  obtain name opts where a: "a = (name, opts)" by (cases a)
  from Cons.prems(1) [unfolded a] show ?case
  proof (cases rule: networksCreate_loop_Cons)
    case go
    from Cons.IH [OF go(2)] Cons.prems(2) show ?thesis
      by (simp add: a update_conv')
  qed simp
qed

lemma networksCreate_loop_keys:
  "networksCreate_loop E nets m w = (Inr m', w', t) \<Longrightarrow>
     fst ` set m' = fst ` set m \<union> fst ` set nets \<and>
     (distinct (map fst m) \<longrightarrow> distinct (map fst m'))"
proof (induction nets arbitrary: m w t)
  case Nil
  then show ?case by (simp add: ret_def)
next
  case (Cons a nets)
  obtain name opts where a: "a = (name, opts)" by (cases a)
  from Cons.prems(1) [unfolded a] show ?case
  proof (cases rule: networksCreate_loop_Cons)
    case go
    from Cons.IH [OF go(2)] show ?thesis
      by (auto simp: a dom_update distinct_update)
  qed simp
qed

text \<open>
  A network whose query came back without an error: either it had an identifier, which
  is kept and nothing is created, or it had none, and it is created once.
\<close>

lemma networksCreate_loop_entry:
  assumes "networksCreate_loop E nets m w = (r, w', t)"
    and "distinct (map fst nets)"
    and "(name, i, None) \<in> set (queries t)"
  shows "(i \<noteq> '''' \<longrightarrow> filter (\<lambda>c. fst c = name) (creations t) = [] \<and>
            (\<forall>m'. r = Inr m' \<longrightarrow> map_of m' name = Some i)) \<and>
         (i = '''' \<longrightarrow> (\<exists>opts ci. (name, opts) \<in> set nets \<and>
            filter (\<lambda>c. fst c = name) (creations t) = [(name, opts, ci)] \<and>
            (\<forall>m'. r = Inr m' \<longrightarrow> map_of m' name = Some ci)))"
  using assms
proof (induction nets arbitrary: m w r w' t)
  case Nil
  then show ?case by (simp add: ret_def queries_def)
next
  case (Cons a nets)
  obtain n opts where a: "a = (n, opts)" by (cases a)
  from Cons.prems(2) have fresh: "n \<notin> fst ` set nets" and dist: "distinct (map fst nets)"
    by (auto simp: a)
  from Cons.prems(1) [unfolded a] show ?case
  proof (cases rule: networksCreate_loop_Cons)
    case stop
    from networksCreate_body_queries [OF stop(1)] Cons.prems(3) show ?thesis
      by (auto simp: a stop(2))
  next
    case (go j w1 t1 t2)
    note body = networksCreate_body_queries [OF go(1)]
    note names = networksCreate_loop_names [OF go(2)]
    show ?thesis
    proof (cases "(name, i, None) \<in> set (queries t1)")
      case True
      with body have eq: "name = n" by auto
      with names fresh have none: "filter (\<lambda>c. fst c = name) (creations t2) = []"
        by (auto simp: filter_empty_conv)
      have keep: "\<And>m'. r = Inr m' \<Longrightarrow> map_of m' n = Some j"
        using networksCreate_loop_other [of E nets "AList.update n j m" w1 _ w' t2 n] go(2) fresh
        by (simp add: update_conv')
      from body True none keep show ?thesis
        by (auto simp: a go(3) eq creations_append)
    next
      case False
      with Cons.prems(3) have in2: "(name, i, None) \<in> set (queries t2)"
        by (simp add: go(3) queries_append)
      with names fresh have neq: "name \<noteq> n" by force
      with body have none: "filter (\<lambda>c. fst c = name) (creations t1) = []"
        by (auto simp: filter_empty_conv)
      from Cons.IH [OF go(2) dist in2] none show ?thesis
        by (auto simp: a go(3) creations_append)
    qed
  qed
qed

lemma networksCreate_loop_append:
  "networksCreate_loop E (xs @ ys) m =
     bind (networksCreate_loop E xs m) (\<lambda>m'. networksCreate_loop E ys m')"
proof (induction xs arbitrary: m)
  case Nil
  show ?case by (simp add: bind_ret)
next
  case (Cons a xs)
  obtain name opts where a: "a = (name, opts)" by (cases a)
  show ?case
    by (simp add: a Cons.IH bind_assoc)
qed

lemma networksCreate_body_existing:
  assumes "ext_NetworkIDFromName E name w = ((networkID, None), w1)" and "networkID \<noteq> ''''"
  shows "networksCreate_body E name opts w =
    (Inr networkID, w1,
     [NetworkIDFromNameCall name networkID None,
      LogEntry DebugLevel (''Network '' @ name @ '' already exists with id '' @ networkID)])"
  using assms by (simp add: networksCreate_body_def prog_defs)

lemma networksCreate_body_created:
  assumes "ext_NetworkIDFromName E name w = (('''', None), w1)"
    and "ext_NetworkCreate E name opts w1 = ((created, None), w2)"
  shows "networksCreate_body E name opts w =
    (Inr created, w2,
     [NetworkIDFromNameCall name '''' None, NetworkCreateCall name opts created None,
      LogEntry InfoLevel (''Created '' @ name @ '' network '' @ created)])"
  using assms by (simp add: networksCreate_body_def prog_defs)

lemma networksCreate_body_create_failed:
  assumes "ext_NetworkIDFromName E name w = (('''', None), w1)"
    and "ext_NetworkCreate E name opts w1 = ((created, Some e), w2)"
  shows "networksCreate_body E name opts w =
    (Inl (Fatal e), w2,
     [NetworkIDFromNameCall name '''' None, NetworkCreateCall name opts created (Some e),
      LogEntry InfoLevel (''Created '' @ name @ '' network '' @ created),
      LogEntry FatalLevel e])"
  using assms by (simp add: networksCreate_body_def prog_defs)

text \<open>
  networksCreate at a declared network that the loop has reached: the run up to it,
  the pass of the body for it, the run over the networks after it.
\<close>

lemma networksCreate_at:
  assumes "Networks appConfig = before @ (name, opts) # rest"
    and "networksCreate_loop E before [] w = (Inr m0, w1, t1)"
  shows "networksCreate E appConfig w =
    (case bind (networksCreate_body E name opts)
            (\<lambda>networkID. networksCreate_loop E rest (AList.update name networkID m0)) w1 of
       (r, w2, t2) \<Rightarrow> (r, w2, t1 @ t2))"
  unfolding networksCreate_def assms(1) networksCreate_loop_append
  by (simp add: bind_Inr [where m = "networksCreate_loop E before []", OF assms(2)])

lemma demo_networksCreate:
  "networksCreate demoExtern demoConfig demoWorld =
     (Inr [(''x'', ''id-x''), (''z'', ''7f3a'')],
      [(''z'', ''7f3a''), (''x'', ''id-x'')],
      [NetworkIDFromNameCall ''x'' '''' None, NetworkCreateCall ''x'' ''bridge'' ''id-x'' None,
       LogEntry InfoLevel ''Created x network id-x'',
       NetworkIDFromNameCall ''z'' ''7f3a'' None,
       LogEntry DebugLevel ''Network z already exists with id 7f3a''])"
  by (simp add: networksCreate_def networksCreate_body_def prog_defs demo_defs id_of_def)

lemma queries_Nil: "queries [] = []"
  by (simp add: queries_def)

lemma queries_Cons:
  "queries (ev # t) =
     (case ev of NetworkIDFromNameCall n i e \<Rightarrow> [(n, i, e)] | _ \<Rightarrow> []) @ queries t"
  by (simp add: queries_def)

lemma creations_Nil: "creations [] = []"
  by (simp add: creations_def)

lemma creations_Cons:
  "creations (ev # t) =
     (case ev of NetworkCreateCall n opts i e \<Rightarrow> [(n, opts, i)] | _ \<Rightarrow> []) @ creations t"
  by (simp add: creations_def)

lemmas network_calls = queries_append queries_Cons queries_Nil
  creations_append creations_Cons creations_Nil

text \<open>
  C2. A declared network whose existence query returns an identifier (no error, not the
  empty string) is not created: the run holds no creation call for its name, and when
  networksCreate returns, its map gives that same identifier for the name. And the
  query is made: when the loop has reached a declared network and the network manager
  answers the query for it with such an identifier, the run is the run up to that
  network, then this query and one debug line, then the run over the networks after
  it with the identifier stored under the name.
\<close>

theorem networksCreate_existing_reused:
  assumes "networksCreate E appConfig w = (r, w', t)"
    and "distinct (map fst (Networks appConfig))"
    and "networkID \<noteq> ''''"
  shows "(name \<in> fst ` set (Networks appConfig) \<and> (name, networkID, None) \<in> set (queries t) \<longrightarrow>
            filter (\<lambda>c. fst c = name) (creations t) = [] \<and>
            (\<forall>networkIDMap. r = Inr networkIDMap \<longrightarrow> map_of networkIDMap name = Some networkID)) \<and>
         (\<forall>before opts rest m0 w1 t1 w2 r3 w3 t3.
            Networks appConfig = before @ (name, opts) # rest \<and>
            networksCreate_loop E before [] w = (Inr m0, w1, t1) \<and>
            ext_NetworkIDFromName E name w1 = ((networkID, None), w2) \<and>
            networksCreate_loop E rest (AList.update name networkID m0) w2 = (r3, w3, t3) \<longrightarrow>
            (r, w', t) =
              (r3, w3,
               t1 @ [NetworkIDFromNameCall name networkID None,
                     LogEntry DebugLevel
                       (''Network '' @ name @ '' already exists with id '' @ networkID)] @ t3) \<and>
            (name, networkID, None) \<in> set (queries t) \<and>
            filter (\<lambda>c. fst c = name) (creations t) = [] \<and>
            (\<forall>networkIDMap. r = Inr networkIDMap \<longrightarrow> map_of networkIDMap name = Some networkID))"
proof -
  have entry: "filter (\<lambda>c. fst c = name) (creations t) = [] \<and>
      (\<forall>networkIDMap. r = Inr networkIDMap \<longrightarrow> map_of networkIDMap name = Some networkID)"
    if "(name, networkID, None) \<in> set (queries t)"
    using networksCreate_loop_entry [OF assms(1) [unfolded networksCreate_def] assms(2) that]
      assms(3)
    by simp
  have reached: "(r, w', t) =
              (r3, w3,
               t1 @ [NetworkIDFromNameCall name networkID None,
                     LogEntry DebugLevel
                       (''Network '' @ name @ '' already exists with id '' @ networkID)] @ t3) \<and>
            (name, networkID, None) \<in> set (queries t)"
    if h: "Networks appConfig = before @ (name, opts) # rest \<and>
            networksCreate_loop E before [] w = (Inr m0, w1, t1) \<and>
            ext_NetworkIDFromName E name w1 = ((networkID, None), w2) \<and>
            networksCreate_loop E rest (AList.update name networkID m0) w2 = (r3, w3, t3)"
    for before opts rest m0 w1 t1 w2 r3 w3 t3
  proof -
    from h have h1: "Networks appConfig = before @ (name, opts) # rest"
      and h2: "networksCreate_loop E before [] w = (Inr m0, w1, t1)"
      and h3: "ext_NetworkIDFromName E name w1 = ((networkID, None), w2)"
      and h4: "networksCreate_loop E rest (AList.update name networkID m0) w2 = (r3, w3, t3)"
      by simp_all
    note body = networksCreate_body_existing [OF h3 assms(3), of opts]
    from networksCreate_at [OF h1 h2] assms(1)
    have e: "(r, w', t) =
        (r3, w3,
         t1 @ [NetworkIDFromNameCall name networkID None,
               LogEntry DebugLevel
                 (''Network '' @ name @ '' already exists with id '' @ networkID)] @ t3)"
      by (simp add: bind_Inr [where m = "networksCreate_body E name opts", OF body] h4)
    then have "(name, networkID, None) \<in> set (queries t)"
      by (simp add: network_calls)
    with e show ?thesis by simp
  qed
  from entry reached show ?thesis
    by blast
qed

lemma demo_first_network:
  "networksCreate_loop demoExtern [(''x'', ''bridge'')] [] demoWorld =
     (Inr [(''x'', ''id-x'')], [(''z'', ''7f3a''), (''x'', ''id-x'')],
      [NetworkIDFromNameCall ''x'' '''' None, NetworkCreateCall ''x'' ''bridge'' ''id-x'' None,
       LogEntry InfoLevel ''Created x network id-x''])"
  by (simp add: networksCreate_body_def prog_defs demo_defs id_of_def)

theorem networksCreate_existing_reused_witness:
  "networksCreate demoExtern demoConfig demoWorld =
     (Inr [(''x'', ''id-x''), (''z'', ''7f3a'')],
      [(''z'', ''7f3a''), (''x'', ''id-x'')],
      [NetworkIDFromNameCall ''x'' '''' None, NetworkCreateCall ''x'' ''bridge'' ''id-x'' None,
       LogEntry InfoLevel ''Created x network id-x'',
       NetworkIDFromNameCall ''z'' ''7f3a'' None,
       LogEntry DebugLevel ''Network z already exists with id 7f3a'']) \<and>
   Networks demoConfig = [(''x'', ''bridge'')] @ (''z'', ''overlay'') # [] \<and>
   ext_NetworkIDFromName demoExtern ''z'' [(''z'', ''7f3a''), (''x'', ''id-x'')] =
     ((''7f3a'', None), [(''z'', ''7f3a''), (''x'', ''id-x'')]) \<and>
   (''z'', ''7f3a'', None) \<in> set (queries (snd (snd
      (networksCreate demoExtern demoConfig demoWorld)))) \<and>
   filter (\<lambda>c. fst c = ''z'') (creations (snd (snd
      (networksCreate demoExtern demoConfig demoWorld)))) = [] \<and>
   map_of [(''x'', ''id-x''), (''z'', ''7f3a'')] ''z'' = Some ''7f3a''"
proof -
  have d: "distinct (map fst (Networks demoConfig))"
    by (simp add: demoConfig_def)
  have e: "''7f3a'' \<noteq> ''''" by simp
  have n: "Networks demoConfig = [(''x'', ''bridge'')] @ (''z'', ''overlay'') # []"
    by (simp add: demoConfig_def)
  have q: "ext_NetworkIDFromName demoExtern ''z'' [(''z'', ''7f3a''), (''x'', ''id-x'')] =
     ((''7f3a'', None), [(''z'', ''7f3a''), (''x'', ''id-x'')])"
    by (simp add: demoExtern_def id_of_def)
  have l: "networksCreate_loop demoExtern [] (AList.update ''z'' ''7f3a'' [(''x'', ''id-x'')])
      [(''z'', ''7f3a''), (''x'', ''id-x'')] =
     (Inr [(''x'', ''id-x''), (''z'', ''7f3a'')], [(''z'', ''7f3a''), (''x'', ''id-x'')], [])"
    by (simp add: ret_def)
  note inst = networksCreate_existing_reused [OF demo_networksCreate d e, of "''z''",
      THEN conjunct2, rule_format,
      where before = "[(''x'', ''bridge'')]" and opts = "''overlay''" and rest = "[]"]
  have h: "Networks demoConfig = [(''x'', ''bridge'')] @ (''z'', ''overlay'') # [] \<and>
      networksCreate_loop demoExtern [(''x'', ''bridge'')] [] demoWorld =
        (Inr [(''x'', ''id-x'')], [(''z'', ''7f3a''), (''x'', ''id-x'')],
         [NetworkIDFromNameCall ''x'' [] None, NetworkCreateCall ''x'' ''bridge'' ''id-x'' None,
          LogEntry InfoLevel ''Created x network id-x'']) \<and>
      ext_NetworkIDFromName demoExtern ''z'' [(''z'', ''7f3a''), (''x'', ''id-x'')] =
        ((''7f3a'', None), [(''z'', ''7f3a''), (''x'', ''id-x'')]) \<and>
      networksCreate_loop demoExtern [] (AList.update ''z'' ''7f3a'' [(''x'', ''id-x'')])
        [(''z'', ''7f3a''), (''x'', ''id-x'')] =
        (Inr [(''x'', ''id-x''), (''z'', ''7f3a'')], [(''z'', ''7f3a''), (''x'', ''id-x'')], [])"
    using n demo_first_network q l by (intro conjI)
  from inst [OF h]
  have "(''z'', ''7f3a'', None) \<in> set (queries (snd (snd
      (networksCreate demoExtern demoConfig demoWorld)))) \<and>
   filter (\<lambda>c. fst c = ''z'') (creations (snd (snd
      (networksCreate demoExtern demoConfig demoWorld)))) = []"
    by (simp add: demo_networksCreate)
  with n q show ?thesis
    by (simp add: demo_networksCreate)
qed

text \<open>
  C3. A declared network whose existence query returns no identifier (no error, the
  empty string) is created: the run holds exactly one creation call for its name, made
  with the options of its declaration, and when networksCreate returns, its map gives
  the identifier that this call returned. And the calls are made: when the loop has
  reached a declared network and the network manager answers the query for it with the
  empty string, the run is the run up to that network, then this query, one creation
  call with the declared options and the line that reports it; a creation error ends
  the run there, otherwise the run goes on over the networks after it with the created
  identifier stored under the name.
\<close>

theorem networksCreate_absent_created:
  assumes "networksCreate E appConfig w = (r, w', t)"
    and "distinct (map fst (Networks appConfig))"
    and "(name, opts) \<in> set (Networks appConfig)"
  shows "((name, '''', None) \<in> set (queries t) \<longrightarrow>
            (\<exists>created. filter (\<lambda>c. fst c = name) (creations t) = [(name, opts, created)] \<and>
               (\<forall>networkIDMap. r = Inr networkIDMap \<longrightarrow> map_of networkIDMap name = Some created))) \<and>
         (\<forall>before rest m0 w1 t1 w2 created e w3.
            Networks appConfig = before @ (name, opts) # rest \<and>
            networksCreate_loop E before [] w = (Inr m0, w1, t1) \<and>
            ext_NetworkIDFromName E name w1 = (('''', None), w2) \<and>
            ext_NetworkCreate E name opts w2 = ((created, e), w3) \<longrightarrow>
            (name, '''', None) \<in> set (queries t) \<and>
            filter (\<lambda>c. fst c = name) (creations t) = [(name, opts, created)] \<and>
            (\<forall>networkIDMap. r = Inr networkIDMap \<longrightarrow> map_of networkIDMap name = Some created) \<and>
            (\<forall>x. e = Some x \<longrightarrow>
               (r, w', t) =
                 (Inl (Fatal x), w3,
                  t1 @ [NetworkIDFromNameCall name '''' None,
                        NetworkCreateCall name opts created (Some x),
                        LogEntry InfoLevel (''Created '' @ name @ '' network '' @ created),
                        LogEntry FatalLevel x])) \<and>
            (e = None \<longrightarrow>
               (\<forall>r4 w4 t4.
                  networksCreate_loop E rest (AList.update name created m0) w3 = (r4, w4, t4) \<longrightarrow>
                  (r, w', t) =
                    (r4, w4,
                     t1 @ [NetworkIDFromNameCall name '''' None,
                           NetworkCreateCall name opts created None,
                           LogEntry InfoLevel (''Created '' @ name @ '' network '' @ created)]
                        @ t4))))"
proof -
  have entry: "\<exists>created. filter (\<lambda>c. fst c = name) (creations t) = [(name, opts, created)] \<and>
      (\<forall>networkIDMap. r = Inr networkIDMap \<longrightarrow> map_of networkIDMap name = Some created)"
    if q: "(name, '''', None) \<in> set (queries t)"
  proof -
    from networksCreate_loop_entry [OF assms(1) [unfolded networksCreate_def] assms(2) q]
    obtain opts' ci where o: "(name, opts') \<in> set (Networks appConfig)"
      and c: "filter (\<lambda>c. fst c = name) (creations t) = [(name, opts', ci)]"
      and m: "\<forall>m'. r = Inr m' \<longrightarrow> map_of m' name = Some ci"
      by auto
    from assms(2) assms(3) o have "opts' = opts"
      by (metis eq_key_imp_eq_value)
    with c m show ?thesis by auto
  qed
  have reached: "(name, '''', None) \<in> set (queries t) \<and>
            filter (\<lambda>c. fst c = name) (creations t) = [(name, opts, created)] \<and>
            (\<forall>networkIDMap. r = Inr networkIDMap \<longrightarrow> map_of networkIDMap name = Some created) \<and>
            (\<forall>x. e = Some x \<longrightarrow>
               (r, w', t) =
                 (Inl (Fatal x), w3,
                  t1 @ [NetworkIDFromNameCall name '''' None,
                        NetworkCreateCall name opts created (Some x),
                        LogEntry InfoLevel (''Created '' @ name @ '' network '' @ created),
                        LogEntry FatalLevel x])) \<and>
            (e = None \<longrightarrow>
               (\<forall>r4 w4 t4.
                  networksCreate_loop E rest (AList.update name created m0) w3 = (r4, w4, t4) \<longrightarrow>
                  (r, w', t) =
                    (r4, w4,
                     t1 @ [NetworkIDFromNameCall name '''' None,
                           NetworkCreateCall name opts created None,
                           LogEntry InfoLevel (''Created '' @ name @ '' network '' @ created)]
                        @ t4)))"
    if h: "Networks appConfig = before @ (name, opts) # rest \<and>
            networksCreate_loop E before [] w = (Inr m0, w1, t1) \<and>
            ext_NetworkIDFromName E name w1 = (('''', None), w2) \<and>
            ext_NetworkCreate E name opts w2 = ((created, e), w3)"
    for before rest m0 w1 t1 w2 created e w3
  proof -
    from h have h1: "Networks appConfig = before @ (name, opts) # rest"
      and h2: "networksCreate_loop E before [] w = (Inr m0, w1, t1)"
      and h3: "ext_NetworkIDFromName E name w1 = (('''', None), w2)"
      and h4: "ext_NetworkCreate E name opts w2 = ((created, e), w3)"
      by simp_all
    note at = networksCreate_at [OF h1 h2]
    have failed: "(r, w', t) =
          (Inl (Fatal x), w3,
           t1 @ [NetworkIDFromNameCall name '''' None,
                 NetworkCreateCall name opts created (Some x),
                 LogEntry InfoLevel (''Created '' @ name @ '' network '' @ created),
                 LogEntry FatalLevel x])" if x: "e = Some x" for x
    proof -
      note body = networksCreate_body_create_failed [OF h3 h4 [unfolded x]]
      from at assms(1) show ?thesis
        by (simp add: bind_Inl [where m = "networksCreate_body E name opts", OF body])
    qed
    have created: "(r, w', t) =
          (r4, w4,
           t1 @ [NetworkIDFromNameCall name '''' None,
                 NetworkCreateCall name opts created None,
                 LogEntry InfoLevel (''Created '' @ name @ '' network '' @ created)] @ t4)"
      if n: "e = None"
        and l: "networksCreate_loop E rest (AList.update name created m0) w3 = (r4, w4, t4)"
      for r4 w4 t4
    proof -
      note body = networksCreate_body_created [OF h3 h4 [unfolded n]]
      from at assms(1) show ?thesis
        by (simp add: bind_Inr [where m = "networksCreate_body E name opts", OF body] l)
    qed
    have calls: "(name, '''', None) \<in> set (queries t) \<and>
        (name, opts, created) \<in> set (creations t)"
    proof (cases e)
      case (Some x)
      from failed [OF Some] show ?thesis
        by (simp add: network_calls)
    next
      case None
      obtain r4 w4 t4 where
        "networksCreate_loop E rest (AList.update name created m0) w3 = (r4, w4, t4)"
        by (metis prod.exhaust)
      from created [OF None this] show ?thesis
        by (simp add: network_calls)
    qed
    from entry calls obtain created' where
      f: "filter (\<lambda>c. fst c = name) (creations t) = [(name, opts, created')]"
      and m: "\<forall>networkIDMap. r = Inr networkIDMap \<longrightarrow> map_of networkIDMap name = Some created'"
      by blast
    from calls have "(name, opts, created) \<in> set (filter (\<lambda>c. fst c = name) (creations t))"
      by simp
    with f have eq: "created' = created" by simp
    show ?thesis
    proof (intro conjI allI impI)
      from calls show "(name, '''', None) \<in> set (queries t)" by simp
      from f eq show "filter (\<lambda>c. fst c = name) (creations t) = [(name, opts, created)]"
        by simp
      from m eq show "\<And>networkIDMap. r = Inr networkIDMap \<Longrightarrow>
          map_of networkIDMap name = Some created"
        by simp
      show "\<And>x. e = Some x \<Longrightarrow> (r, w', t) =
          (Inl (Fatal x), w3,
           t1 @ [NetworkIDFromNameCall name '''' None,
                 NetworkCreateCall name opts created (Some x),
                 LogEntry InfoLevel (''Created '' @ name @ '' network '' @ created),
                 LogEntry FatalLevel x])"
        by (rule failed)
      show "\<And>r4 w4 t4. e = None \<Longrightarrow>
          networksCreate_loop E rest (AList.update name created m0) w3 = (r4, w4, t4) \<Longrightarrow>
          (r, w', t) =
          (r4, w4,
           t1 @ [NetworkIDFromNameCall name '''' None,
                 NetworkCreateCall name opts created None,
                 LogEntry InfoLevel (''Created '' @ name @ '' network '' @ created)] @ t4)"
        by (rule created)
    qed
  qed
  show ?thesis
  proof (intro conjI allI impI)
    show "(name, '''', None) \<in> set (queries t) \<Longrightarrow>
        \<exists>created. filter (\<lambda>c. fst c = name) (creations t) = [(name, opts, created)] \<and>
          (\<forall>networkIDMap. r = Inr networkIDMap \<longrightarrow> map_of networkIDMap name = Some created)"
      by (rule entry)
  next
    fix before rest m0 w1 t1 w2 created e w3
    assume h: "Networks appConfig = before @ (name, opts) # rest \<and>
            networksCreate_loop E before [] w = (Inr m0, w1, t1) \<and>
            ext_NetworkIDFromName E name w1 = (('''', None), w2) \<and>
            ext_NetworkCreate E name opts w2 = ((created, e), w3)"
    note r = reached [OF h]
    from r show "(name, '''', None) \<in> set (queries t)" by simp
    from r show "filter (\<lambda>c. fst c = name) (creations t) = [(name, opts, created)]" by simp
    from r show "\<And>networkIDMap. r = Inr networkIDMap \<Longrightarrow> map_of networkIDMap name = Some created"
      by simp
    from r show "\<And>x. e = Some x \<Longrightarrow> (r, w', t) =
          (Inl (Fatal x), w3,
           t1 @ [NetworkIDFromNameCall name '''' None,
                 NetworkCreateCall name opts created (Some x),
                 LogEntry InfoLevel (''Created '' @ name @ '' network '' @ created),
                 LogEntry FatalLevel x])"
      by simp
    from r show "\<And>r4 w4 t4. e = None \<Longrightarrow>
          networksCreate_loop E rest (AList.update name created m0) w3 = (r4, w4, t4) \<Longrightarrow>
          (r, w', t) =
          (r4, w4,
           t1 @ [NetworkIDFromNameCall name '''' None,
                 NetworkCreateCall name opts created None,
                 LogEntry InfoLevel (''Created '' @ name @ '' network '' @ created)] @ t4)"
      by simp
  qed
qed

theorem networksCreate_absent_created_witness:
  "networksCreate demoExtern demoConfig demoWorld =
     (Inr [(''x'', ''id-x''), (''z'', ''7f3a'')],
      [(''z'', ''7f3a''), (''x'', ''id-x'')],
      [NetworkIDFromNameCall ''x'' '''' None, NetworkCreateCall ''x'' ''bridge'' ''id-x'' None,
       LogEntry InfoLevel ''Created x network id-x'',
       NetworkIDFromNameCall ''z'' ''7f3a'' None,
       LogEntry DebugLevel ''Network z already exists with id 7f3a'']) \<and>
   Networks demoConfig = [] @ (''x'', ''bridge'') # [(''z'', ''overlay'')] \<and>
   ext_NetworkIDFromName demoExtern ''x'' demoWorld = (('''', None), demoWorld) \<and>
   ext_NetworkCreate demoExtern ''x'' ''bridge'' demoWorld =
     ((''id-x'', None), [(''z'', ''7f3a''), (''x'', ''id-x'')]) \<and>
   (''x'', '''', None) \<in> set (queries (snd (snd
      (networksCreate demoExtern demoConfig demoWorld)))) \<and>
   filter (\<lambda>c. fst c = ''x'') (creations (snd (snd
      (networksCreate demoExtern demoConfig demoWorld)))) = [(''x'', ''bridge'', ''id-x'')] \<and>
   map_of [(''x'', ''id-x''), (''z'', ''7f3a'')] ''x'' = Some ''id-x''"
proof -
  have d: "distinct (map fst (Networks demoConfig))"
    by (simp add: demoConfig_def)
  have m: "(''x'', ''bridge'') \<in> set (Networks demoConfig)"
    by (simp add: demoConfig_def)
  have n: "Networks demoConfig = [] @ (''x'', ''bridge'') # [(''z'', ''overlay'')]"
    by (simp add: demoConfig_def)
  have s: "networksCreate_loop demoExtern [] [] demoWorld = (Inr [], demoWorld, [])"
    by (simp add: ret_def)
  have q: "ext_NetworkIDFromName demoExtern ''x'' demoWorld = (('''', None), demoWorld)"
    by (simp add: demoExtern_def demoWorld_def id_of_def)
  have c: "ext_NetworkCreate demoExtern ''x'' ''bridge'' demoWorld =
     ((''id-x'', None), [(''z'', ''7f3a''), (''x'', ''id-x'')])"
    by (simp add: demoExtern_def demoWorld_def)
  note inst = networksCreate_absent_created [OF demo_networksCreate d m,
      THEN conjunct2, rule_format,
      where before = "[]" and rest = "[(''z'', ''overlay'')]"]
  have h: "Networks demoConfig = [] @ (''x'', ''bridge'') # [(''z'', ''overlay'')] \<and>
      networksCreate_loop demoExtern [] [] demoWorld = (Inr [], demoWorld, []) \<and>
      ext_NetworkIDFromName demoExtern ''x'' demoWorld = (([], None), demoWorld) \<and>
      ext_NetworkCreate demoExtern ''x'' ''bridge'' demoWorld =
        ((''id-x'', None), [(''z'', ''7f3a''), (''x'', ''id-x'')])"
    using n s q c by (intro conjI)
  from inst [OF h]
  have "(''x'', '''', None) \<in> set (queries (snd (snd
      (networksCreate demoExtern demoConfig demoWorld)))) \<and>
   filter (\<lambda>c. fst c = ''x'') (creations (snd (snd
      (networksCreate demoExtern demoConfig demoWorld)))) = [(''x'', ''bridge'', ''id-x'')]"
    by (simp add: demo_networksCreate)
  with n q c show ?thesis
    by (simp add: demo_networksCreate)
qed

text \<open>
  C4. When networksCreate returns, its map has one entry for each declared network and
  no other: the keys of the map are the declared names, and no key occurs twice.
\<close>

theorem networksCreate_complete:
  assumes "networksCreate E appConfig w = (Inr networkIDMap, w', t)"
  shows "fst ` set networkIDMap = fst ` set (Networks appConfig) \<and>
         distinct (map fst networkIDMap)"
  using networksCreate_loop_keys [OF assms [unfolded networksCreate_def]]
  by simp

theorem networksCreate_complete_witness:
  "fst (networksCreate demoExtern demoConfig demoWorld)
     = Inr [(''x'', ''id-x''), (''z'', ''7f3a'')] \<and>
   fst ` set [(''x'', ''id-x''), (''z'', ''7f3a'')] = fst ` set (Networks demoConfig) \<and>
   distinct (map fst [(''x'', ''id-x''), (''z'', ''7f3a'')])"
  using networksCreate_complete [OF demo_networksCreate] demo_networksCreate
  by simp

subsection \<open>registriesLogin\<close>

lemma registriesLogin_body_run:
  assumes "registriesLogin_body E r w = (res, w', t)"
  shows "\<exists>e. ext_Login E (r_URL r) (r_Name r) (r_Password r) w = (e, w') \<and>
    t = [LoginCall (r_URL r) (r_Name r) (r_Password r) e,
         LogEntry (case e of None \<Rightarrow> DebugLevel
                   | Some x \<Rightarrow> if r_ContinueOnFailure r then WarnLevel else FatalLevel)
                  (case e of None \<Rightarrow> ''Logged in to registry '' @ r_Name r @ '' at '' @ r_URL r
                   | Some x \<Rightarrow> login_failed_msg r x)] \<and>
    res = (case e of None \<Rightarrow> Inr ()
           | Some x \<Rightarrow> if r_ContinueOnFailure r then Inr () else Inl (Fatal (login_failed_msg r x)))"
  using assms
  by (auto simp: registriesLogin_body_def prog_defs split: prod.splits option.splits if_splits)



lemma registriesLogin_loop_run:
  "registriesLogin_loop E rs w = (res, w', t) \<Longrightarrow>
     prefix (logins t) (map registry_key rs) \<and>
     (res = Inr () \<longrightarrow> logins t = map registry_key rs) \<and>
     queries t = [] \<and> creations t = [] \<and> parses t = [] \<and> removals t = [] \<and>
     composeRuns t = [] \<and> set (stages t) \<subseteq> {0}"
proof (induction rs arbitrary: w res w' t)
  case Nil
  then show ?case by (simp add: ret_def proj_defs)
next
  case (Cons r rs)
  from Cons.prems consider
    (stop) x where "registriesLogin_body E r w = (Inl x, w', t)" "res = Inl x"
  | (go) w1 t1 t2 where "registriesLogin_body E r w = (Inr (), w1, t1)"
      "registriesLogin_loop E rs w1 = (res, w', t2)" "t = t1 @ t2"
    by (auto simp: bind_run)
  then show ?case
  proof cases
    case stop
    from registriesLogin_body_run [OF stop(1)] show ?thesis
      by (auto simp: stop(2) proj_defs registry_key_def)
  next
    case go
    from registriesLogin_body_run [OF go(1)] Cons.IH [OF go(2)] show ?thesis
      by (auto simp: go(3) proj_defs registry_key_def)
  qed
qed




subsection \<open>createNetworkServiceMap\<close>

lemma services_of_update:
  "services_of (AList.update k v m) n = (if n = k then v else services_of m n)"
  by (simp add: services_of_def update_conv')

lemma services_of_Nil: "services_of [] n = []"
  by (simp add: services_of_def)

lemma services_of_keys: "services_of m n \<noteq> [] \<Longrightarrow> n \<in> fst ` set m"
  by (auto simp: services_of_def split: option.splits dest: map_of_SomeD intro: rev_image_eqI)

lemma services_of_entry:
  "distinct (map fst m) \<Longrightarrow> (n, l) \<in> set m \<Longrightarrow> services_of m n = l"
  by (simp add: services_of_def)

lemma addNetworks_services:
  "services_of (addNetworks networkIDMap serviceName nets m) n =
     services_of m n @
     (if map_of networkIDMap n \<noteq> None
      then map (\<lambda>_. serviceName) (filter (\<lambda>k. k = n) nets) else [])"
  by (induction nets arbitrary: m) (auto simp: services_of_update)

lemma update_entries: "e \<in> set (AList.update k v m) \<Longrightarrow> e = (k, v) \<or> e \<in> set m"
  by (induction m) (auto split: if_splits)

lemma addNetworks_keys:
  "fst ` set (addNetworks networkIDMap serviceName nets m) \<subseteq> fst ` set m \<union> fst ` set networkIDMap"
proof (induction nets arbitrary: m)
  case Nil
  show ?case by simp
next
  case (Cons name nets)
  show ?case
  proof (cases "map_of networkIDMap name")
    case None
    with Cons.IH [of m] show ?thesis by simp
  next
    case (Some i)
    then have "name \<in> fst ` set networkIDMap"
      by (auto dest: map_of_SomeD intro: rev_image_eqI)
    with Cons.IH [of "AList.update name (services_of m name @ [serviceName]) m"] Some
    show ?thesis
      by (auto simp: dom_update)
  qed
qed

lemma addNetworks_distinct:
  "distinct (map fst m) \<Longrightarrow> distinct (map fst (addNetworks networkIDMap serviceName nets m))"
  by (induction nets arbitrary: m) (auto simp: distinct_update)

lemma addNetworks_nonempty:
  "\<forall>e \<in> set m. snd e \<noteq> [] \<Longrightarrow>
     \<forall>e \<in> set (addNetworks networkIDMap serviceName nets m). snd e \<noteq> []"
proof (induction nets arbitrary: m)
  case Nil
  then show ?case by simp
next
  case (Cons name nets)
  have "\<forall>e \<in> set (AList.update name (services_of m name @ [serviceName]) m). snd e \<noteq> []"
    using update_entries [of _ name "services_of m name @ [serviceName]" m] Cons.prems
    by fastforce
  with Cons.prems Cons.IH show ?case
    by simp
qed

lemma addServices_services:
  "services_of (addServices networkIDMap services m) n =
     services_of m n @
     (if map_of networkIDMap n \<noteq> None then concat (map (references n) services) else [])"
  by (induction services arbitrary: m) (auto simp: addNetworks_services references_def)

lemma addServices_keys:
  "fst ` set (addServices networkIDMap services m) \<subseteq> fst ` set m \<union> fst ` set networkIDMap"
proof (induction services arbitrary: m)
  case Nil
  show ?case by simp
next
  case (Cons s services)
  from Cons.IH [of "addNetworks networkIDMap (s_Name s) (s_Networks s) m"]
    addNetworks_keys [of networkIDMap "s_Name s" "s_Networks s" m]
  show ?case
    by simp blast
qed

lemma addServices_distinct:
  "distinct (map fst m) \<Longrightarrow> distinct (map fst (addServices networkIDMap services m))"
  by (induction services arbitrary: m) (auto simp: addNetworks_distinct)

lemma addServices_nonempty:
  "\<forall>e \<in> set m. snd e \<noteq> [] \<Longrightarrow>
     \<forall>e \<in> set (addServices networkIDMap services m). snd e \<noteq> []"
proof (induction services arbitrary: m)
  case Nil
  then show ?case by simp
next
  case (Cons s services)
  from Cons.IH [OF addNetworks_nonempty [OF Cons.prems]] show ?case
    by simp
qed

lemma parse_body_run:
  assumes "parse_body E dir file w = (r, w', t)"
  shows "(\<exists>c. r = Inr c \<and> t = [ParseCall dir file c None]) \<or>
     (\<exists>c x. r = Inl (Fatal (''Failed to parse docker-compose appConfig file: '' @ x)) \<and>
        t = [ParseCall dir file c (Some x),
             LogEntry FatalLevel (''Failed to parse docker-compose appConfig file: '' @ x)])"
  using assms
  by (auto simp: parse_body_def prog_defs split: prod.splits option.splits)

lemma createNetworkServiceMap_loop_Cons:
  assumes "createNetworkServiceMap_loop E dir (f # files) networkIDMap m w = (r, w', t)"
  obtains (stop) x where "parse_body E dir f w = (Inl x, w', t)" "r = Inl x"
  | (go) c w1 t1 t2 where "parse_body E dir f w = (Inr c, w1, t1)"
      "createNetworkServiceMap_loop E dir files networkIDMap
         (addServices networkIDMap (Services c) m) w1 = (r, w', t2)" "t = t1 @ t2"
  using assms by (auto simp: bind_run)

lemma createNetworkServiceMap_loop_trace:
  "createNetworkServiceMap_loop E dir files networkIDMap m w = (r, w', t) \<Longrightarrow>
     prefix (parses t) (map (Pair dir) files) \<and>
     ((\<exists>m'. r = Inr m') \<longrightarrow> parses t = map (Pair dir) files) \<and>
     logins t = [] \<and> queries t = [] \<and> creations t = [] \<and> removals t = [] \<and>
     composeRuns t = [] \<and> set (stages t) \<subseteq> {2}"
proof (induction files arbitrary: m w r w' t)
  case Nil
  then show ?case by (simp add: ret_def proj_defs)
next
  case (Cons f files)
  from Cons.prems show ?case
  proof (cases rule: createNetworkServiceMap_loop_Cons)
    case stop
    from parse_body_run [OF stop(1)] show ?thesis
      by (auto simp: stop(2) proj_defs)
  next
    case go
    from parse_body_run [OF go(1)] Cons.IH [OF go(2)] show ?thesis
      by (auto simp: go(3) proj_defs)
  qed
qed

lemma createNetworkServiceMap_loop_services:
  "createNetworkServiceMap_loop E dir files networkIDMap m w = (Inr m', w', t) \<Longrightarrow>
     services_of m' n = services_of m n @
        (if map_of networkIDMap n \<noteq> None then dependentServices n (parsedConfigs t) else [])"
proof (induction files arbitrary: m w t)
  case Nil
  then show ?case by (simp add: ret_def dependentServices_def parsedConfigs_def)
next
  case (Cons f files)
  from Cons.prems show ?case
  proof (cases rule: createNetworkServiceMap_loop_Cons)
    case (go c w1 t1 t2)
    from parse_body_run [OF go(1)] have t1: "parsedConfigs t1 = [c]"
      by (auto simp: parsedConfigs_def)
    from Cons.IH [OF go(2)] show ?thesis
      by (simp add: go(3) parsedConfigs_append t1 addServices_services dependentServices_def)
  qed simp
qed

lemma createNetworkServiceMap_loop_keys:
  "createNetworkServiceMap_loop E dir files networkIDMap m w = (Inr m', w', t) \<Longrightarrow>
     fst ` set m' \<subseteq> fst ` set m \<union> fst ` set networkIDMap"
proof (induction files arbitrary: m w t)
  case Nil
  then show ?case by (simp add: ret_def)
next
  case (Cons f files)
  from Cons.prems show ?case
  proof (cases rule: createNetworkServiceMap_loop_Cons)
    case (go c w1 t1 t2)
    from Cons.IH [OF go(2)] addServices_keys [of networkIDMap "Services c" m]
    show ?thesis by blast
  qed simp
qed

lemma createNetworkServiceMap_loop_distinct:
  "createNetworkServiceMap_loop E dir files networkIDMap m w = (Inr m', w', t) \<Longrightarrow>
     distinct (map fst m) \<Longrightarrow> distinct (map fst m')"
proof (induction files arbitrary: m w t)
  case Nil
  then show ?case by (simp add: ret_def)
next
  case (Cons f files)
  from Cons.prems(1) show ?case
  proof (cases rule: createNetworkServiceMap_loop_Cons)
    case (go c w1 t1 t2)
    from Cons.IH [OF go(2) addServices_distinct [OF Cons.prems(2)]]
    show ?thesis .
  qed simp
qed

lemma createNetworkServiceMap_loop_nonempty:
  "createNetworkServiceMap_loop E dir files networkIDMap m w = (Inr m', w', t) \<Longrightarrow>
     \<forall>e \<in> set m. snd e \<noteq> [] \<Longrightarrow> \<forall>e \<in> set m'. snd e \<noteq> []"
proof (induction files arbitrary: m w t)
  case Nil
  then show ?case by (simp add: ret_def)
next
  case (Cons f files)
  from Cons.prems(1) show ?case
  proof (cases rule: createNetworkServiceMap_loop_Cons)
    case (go c w1 t1 t2)
    from Cons.IH [OF go(2) addServices_nonempty [OF Cons.prems(2)]]
    show ?thesis .
  qed simp
qed

text \<open>What createNetworkServiceMap returns, read against the compose files it parsed.\<close>

lemma createNetworkServiceMap_result:
  assumes "createNetworkServiceMap E devConfig project networkIDMap w = (Inr m, w', t)"
  shows "services_of m n =
      (if n \<in> fst ` set networkIDMap then dependentServices n (parsedConfigs t) else [])"
    and "fst ` set m \<subseteq> fst ` set networkIDMap"
    and "distinct (map fst m)"
    and "\<forall>e \<in> set m. snd e \<noteq> []"
proof -
  note run = assms [unfolded createNetworkServiceMap_def]
  have dom: "map_of networkIDMap n \<noteq> None \<longleftrightarrow> n \<in> fst ` set networkIDMap"
    by (simp add: map_of_eq_None_iff)
  from createNetworkServiceMap_loop_services [OF run, of n]
  show "services_of m n =
      (if n \<in> fst ` set networkIDMap then dependentServices n (parsedConfigs t) else [])"
    unfolding dom by (simp add: services_of_Nil)
  from createNetworkServiceMap_loop_keys [OF run]
  show "fst ` set m \<subseteq> fst ` set networkIDMap" by simp
  from createNetworkServiceMap_loop_distinct [OF run]
  show "distinct (map fst m)" by simp
  from createNetworkServiceMap_loop_nonempty [OF run]
  show "\<forall>e \<in> set m. snd e \<noteq> []" by simp
qed

text \<open>
  C1. When createNetworkServiceMap returns, every key of its map is a key of the network
  identity map: a service is recorded only under a declared network. In particular, for
  one compose file whose parse gives the service \<open>A\<close> on the network \<open>x\<close> and the service
  \<open>B\<close> on the network \<open>y\<close> (in either order), with \<open>x\<close> the only declared network, the map
  is \<open>x\<close> with the list \<open>A\<close>: neither \<open>B\<close> nor \<open>y\<close> is in it.
\<close>

theorem createNetworkServiceMap_declared_only:
  "(createNetworkServiceMap E devConfig project networkIDMap w = (Inr m, w', t) \<longrightarrow>
      fst ` set m \<subseteq> fst ` set networkIDMap) \<and>
   (p_DockerComposeFilenames project = [composeFilename] \<and>
    ext_Parse E (p_Directory project) composeFilename w = ((composeConfig, None), w1) \<and>
    (Services composeConfig =
       [\<lparr>s_Name = ''A'', s_Networks = [''x'']\<rparr>, \<lparr>s_Name = ''B'', s_Networks = [''y'']\<rparr>] \<or>
     Services composeConfig =
       [\<lparr>s_Name = ''B'', s_Networks = [''y'']\<rparr>, \<lparr>s_Name = ''A'', s_Networks = [''x'']\<rparr>]) \<and>
    fst ` set networkIDMap = {''x''} \<longrightarrow>
      fst (createNetworkServiceMap E devConfig project networkIDMap w) = Inr [(''x'', [''A''])])"
proof (intro conjI impI)
  assume "createNetworkServiceMap E devConfig project networkIDMap w = (Inr m, w', t)"
  then show "fst ` set m \<subseteq> fst ` set networkIDMap"
    by (rule createNetworkServiceMap_result(2))
next
  assume a: "p_DockerComposeFilenames project = [composeFilename] \<and>
    ext_Parse E (p_Directory project) composeFilename w = ((composeConfig, None), w1) \<and>
    (Services composeConfig =
       [\<lparr>s_Name = ''A'', s_Networks = [''x'']\<rparr>, \<lparr>s_Name = ''B'', s_Networks = [''y'']\<rparr>] \<or>
     Services composeConfig =
       [\<lparr>s_Name = ''B'', s_Networks = [''y'']\<rparr>, \<lparr>s_Name = ''A'', s_Networks = [''x'']\<rparr>]) \<and>
    fst ` set networkIDMap = {''x''}"
  then have x: "map_of networkIDMap ''x'' \<noteq> None" and y: "map_of networkIDMap ''y'' = None"
    by (simp_all add: map_of_eq_None_iff)
  from a have parse: "parse_body E (p_Directory project) composeFilename w =
      (Inr composeConfig, w1, [ParseCall (p_Directory project) composeFilename composeConfig None])"
    by (simp add: parse_body_def prog_defs)
  from a have files: "p_DockerComposeFilenames project = [composeFilename]"
    by simp
  have run: "createNetworkServiceMap E devConfig project networkIDMap w =
      (Inr (addServices networkIDMap (Services composeConfig) []), w1,
       [ParseCall (p_Directory project) composeFilename composeConfig None])"
    by (simp add: createNetworkServiceMap_def files
        bind_Inr [where m = "parse_body E (p_Directory project) composeFilename", OF parse] ret_def)
  from a have "addServices networkIDMap (Services composeConfig) [] = [(''x'', [''A''])]"
    using x y by (elim conjE disjE) (simp_all add: services_of_def)
  with run show "fst (createNetworkServiceMap E devConfig project networkIDMap w) = Inr [(''x'', [''A''])]"
    by simp
qed

theorem createNetworkServiceMap_declared_only_witness:
  "createNetworkServiceMap demoExtern demoConfig oneFileProject [(''x'', ''id-x'')] demoWorld =
     (Inr [(''x'', [''A''])], demoWorld, [ParseCall ''/src/app'' ''a.yml'' demoCompose None]) \<and>
   fst ` set [(''x'', [''A''])] \<subseteq> fst ` set [(''x'', ''id-x'')]"
proof -
  have run: "createNetworkServiceMap demoExtern demoConfig oneFileProject [(''x'', ''id-x'')] demoWorld =
     (Inr [(''x'', [''A''])], demoWorld, [ParseCall ''/src/app'' ''a.yml'' demoCompose None])"
    by (simp add: model_defs prog_defs demo_defs)
  have a: "p_DockerComposeFilenames oneFileProject = [''a.yml''] \<and>
    ext_Parse demoExtern (p_Directory oneFileProject) ''a.yml'' demoWorld
      = ((demoCompose, None), demoWorld) \<and>
    (Services demoCompose =
       [\<lparr>s_Name = ''A'', s_Networks = [''x'']\<rparr>, \<lparr>s_Name = ''B'', s_Networks = [''y'']\<rparr>] \<or>
     Services demoCompose =
       [\<lparr>s_Name = ''B'', s_Networks = [''y'']\<rparr>, \<lparr>s_Name = ''A'', s_Networks = [''x'']\<rparr>]) \<and>
    fst ` set [(''x'', ''id-x'')] = {''x''}"
    by (simp add: demo_defs)
  from createNetworkServiceMap_declared_only
    [of demoExtern demoConfig oneFileProject "[(''x'', ''id-x'')]" demoWorld "[(''x'', [''A''])]"
      demoWorld "[ParseCall ''/src/app'' ''a.yml'' demoCompose None]" "''a.yml''" demoCompose demoWorld]
    run a
  show ?thesis by simp
qed

subsection \<open>verifyContainerConfig\<close>

lemma removalErrors_append: "removalErrors (t1 @ t2) = removalErrors t1 @ removalErrors t2"
  by (simp add: removalErrors_def)

lemma createNetworkServiceMap_trace:
  assumes "createNetworkServiceMap E devConfig project networkIDMap w = (r, w', t)"
  shows "prefix (parses t) (map (Pair (p_Directory project)) (p_DockerComposeFilenames project))"
    and "logins t = []" and "queries t = []" and "creations t = []" and "removals t = []"
    and "composeRuns t = []" and "set (stages t) \<subseteq> {2}"
  using createNetworkServiceMap_loop_trace [OF assms [unfolded createNetworkServiceMap_def]]
  by simp_all

lemma createNetworkServiceMap_loop_no_errors:
  "createNetworkServiceMap_loop E dir files networkIDMap m w = (r, w', t) \<Longrightarrow>
     removalErrors t = []"
proof (induction files arbitrary: m w r w' t)
  case Nil
  then show ?case by (simp add: ret_def removalErrors_def)
next
  case (Cons f files)
  from Cons.prems show ?case
  proof (cases rule: createNetworkServiceMap_loop_Cons)
    case stop
    from parse_body_run [OF stop(1)] show ?thesis
      by (auto simp: removalErrors_def)
  next
    case go
    from parse_body_run [OF go(1)] Cons.IH [OF go(2)] show ?thesis
      by (auto simp: go(3) removalErrors_def)
  qed
qed

lemma remove_body_run:
  assumes "remove_body E networkIDMap name services w = (r, w', t)"
  shows "(r = Inr () \<and>
          t = [RemoveContainerIfRequiredCall name (id_of networkIDMap name) services None]) \<or>
         (\<exists>e. r = Inl (Fatal e) \<and>
          t = [RemoveContainerIfRequiredCall name (id_of networkIDMap name) services (Some e),
               LogEntry FatalLevel e])"
  using assms
  by (auto simp: remove_body_def prog_defs split: prod.splits option.splits)

lemma remove_loop_run:
  "remove_loop E networkIDMap entries w = (r, w', t) \<Longrightarrow>
     prefix (removals t) (map (removal_of networkIDMap) entries) \<and>
     (r = Inr () \<longrightarrow> removals t = map (removal_of networkIDMap) entries) \<and>
     (\<forall>e \<in> set (removalErrors t). r = Inl (Fatal e)) \<and>
     logins t = [] \<and> queries t = [] \<and> creations t = [] \<and> parses t = [] \<and>
     parsedConfigs t = [] \<and> composeRuns t = [] \<and> set (stages t) \<subseteq> {2}"
proof (induction entries arbitrary: w r w' t)
  case Nil
  then show ?case by (simp add: ret_def proj_defs removalErrors_def)
next
  case (Cons a entries)
  obtain name services where a: "a = (name, services)" by (cases a)
  from Cons.prems consider
    (stop) x where "remove_body E networkIDMap name services w = (Inl x, w', t)" "r = Inl x"
  | (go) w1 t1 t2 where "remove_body E networkIDMap name services w = (Inr (), w1, t1)"
      "remove_loop E networkIDMap entries w1 = (r, w', t2)" "t = t1 @ t2"
    by (auto simp: a bind_run)
  then show ?case
  proof cases
    case stop
    from remove_body_run [OF stop(1)] show ?thesis
      by (auto simp: a stop(2) proj_defs removalErrors_def removal_of_def)
  next
    case go
    from remove_body_run [OF go(1)] Cons.IH [OF go(2)] show ?thesis
      by (auto simp: a go(3) proj_defs removalErrors_def removal_of_def)
  qed
qed

lemma map_fst_insort_key:
  "map fst (insort_key (\<lambda>entry. g (fst entry)) x xs) = insort_key g (fst x) (map fst xs)"
  by (induction xs) auto

lemma map_fst_rangeMap: "map fst (rangeMap E m) = sort_key (ext_rangeOrder E) (map fst m)"
  unfolding rangeMap_def
  by (induction m) (simp_all add: map_fst_insort_key)

lemma set_rangeMap: "set (rangeMap E m) = set m"
  by (simp add: rangeMap_def)

lemma distinct_rangeMap: "distinct (map fst (rangeMap E m)) = distinct (map fst m)"
  by (simp add: map_fst_rangeMap)

lemma rank_of_positions:
  assumes "distinct ks"
  shows "map (\<lambda>k. case map_of (zip ks [0..<length ks]) k of None \<Rightarrow> 0 | Some i \<Rightarrow> i) ks
    = [0..<length ks]"
proof (rule nth_equalityI)
  show "length (map (\<lambda>k. case map_of (zip ks [0..<length ks]) k of None \<Rightarrow> 0 | Some i \<Rightarrow> i) ks)
    = length [0..<length ks]"
    by simp
next
  fix i
  assume "i < length (map (\<lambda>k. case map_of (zip ks [0..<length ks]) k of None \<Rightarrow> 0 | Some i \<Rightarrow> i) ks)"
  then have i: "i < length ks" by simp
  from map_of_zip_nth [of ks "[0..<length ks]" i] assms i
  have "map_of (zip ks [0..<length ks]) (ks ! i) = Some i"
    by simp
  with i show "map (\<lambda>k. case map_of (zip ks [0..<length ks]) k of None \<Rightarrow> 0 | Some i \<Rightarrow> i) ks ! i
    = [0..<length ks] ! i"
    by simp
qed

text \<open>
  Every order of the entries of a map with one entry per key is the order in which
  \<open>rangeMap\<close> visits them for some rank of the keys.
\<close>

lemma rangeMap_any_order:
  assumes "mset ys = mset m" and "distinct (map fst m)"
  shows "\<exists>rank. rangeMap (E\<lparr>ext_rangeOrder := rank\<rparr>) m = ys"
proof -
  define ks where "ks = map fst ys"
  define rank where
    "rank = (\<lambda>k. case map_of (zip ks [0..<length ks]) k of None \<Rightarrow> (0::nat) | Some i \<Rightarrow> i)"
  from assms(1) have "mset (map fst ys) = mset (map fst m)"
    by (metis mset_map)
  with assms(2) have dk: "distinct ks"
    unfolding ks_def by (metis mset_eq_imp_distinct_iff)
  from rank_of_positions [OF dk] have pos: "map rank ks = [0..<length ks]"
    by (simp add: rank_def)
  then have "distinct (map rank ks)"
    by simp
  then have inj: "inj_on rank (set ks)"
    by (simp add: distinct_map)
  from dk have injf: "inj_on fst (set ys)"
    unfolding ks_def by (simp add: distinct_map)
  have "inj_on (\<lambda>entry. rank (fst entry)) (set ys)"
  proof (rule inj_onI)
    fix a b
    assume a: "a \<in> set ys" and b: "b \<in> set ys" and e: "rank (fst a) = rank (fst b)"
    from a b have "fst a \<in> set ks" "fst b \<in> set ks"
      by (simp_all add: ks_def)
    with inj e have "fst a = fst b"
      by (rule inj_onD)
    with injf a b show "a = b"
      by (simp add: inj_on_def)
  qed
  moreover from assms(1) have "set m = set ys"
    by (metis mset_eq_setD)
  ultimately have i: "inj_on (\<lambda>entry. rank (fst entry)) (set m)"
    by simp
  from pos have s: "sorted (map (\<lambda>entry. rank (fst entry)) ys)"
    by (simp add: ks_def comp_def)
  from sort_key_inj_key_eq [OF assms(1) [symmetric] i s]
  have "rangeMap (E\<lparr>ext_rangeOrder := rank\<rparr>) m = ys"
    by (simp add: rangeMap_def)
  then show ?thesis by (rule exI [where x = rank])
qed

lemma verifyContainerConfig_cases:
  assumes "verifyContainerConfig E appConfig project networkIDMap w = (r, w', t)"
  obtains (none) "networkIDMap = []" "r = Inr ()" "w' = w" "t = []"
  | (stop) x where "networkIDMap \<noteq> []"
      "createNetworkServiceMap E appConfig project networkIDMap w = (Inl x, w', t)" "r = Inl x"
  | (go) m w1 t1 t2 where "networkIDMap \<noteq> []"
      "createNetworkServiceMap E appConfig project networkIDMap w = (Inr m, w1, t1)"
      "remove_loop E networkIDMap (rangeMap E m) w1 = (r, w', t2)" "t = t1 @ t2"
  using assms
  by (auto simp: verifyContainerConfig_def bind_run ret_def split: if_splits)

lemma distinct_prefix: "prefix xs ys \<Longrightarrow> distinct ys \<Longrightarrow> distinct xs"
  by (auto simp: prefix_def)

lemma map_of_id_of: "name \<in> fst ` set networkIDMap \<Longrightarrow>
    map_of networkIDMap name = Some (id_of networkIDMap name)"
  by (cases "map_of networkIDMap name") (auto simp: id_of_def map_of_eq_None_iff)

lemma parse_body_ok:
  assumes "ext_Parse E dir file w = ((c, None), w1)"
  shows "parse_body E dir file w = (Inr c, w1, [ParseCall dir file c None])"
  using assms by (simp add: parse_body_def prog_defs)

lemma parse_body_failed:
  assumes "ext_Parse E dir file w = ((c, Some e), w1)"
  shows "parse_body E dir file w =
    (Inl (Fatal (''Failed to parse docker-compose appConfig file: '' @ e)), w1,
     [ParseCall dir file c (Some e),
      LogEntry FatalLevel (''Failed to parse docker-compose appConfig file: '' @ e)])"
  using assms by (simp add: parse_body_def prog_defs)

text \<open>
  When the parser answers every compose file, createNetworkServiceMap parses them all
  and returns; when it refuses one, the run ends there.
\<close>

lemma createNetworkServiceMap_loop_parseAll:
  "parseAll E dir files w = Some (cs, w1) \<Longrightarrow>
     \<exists>m' t. createNetworkServiceMap_loop E dir files networkIDMap m w = (Inr m', w1, t) \<and>
       parsedConfigs t = cs \<and> parses t = map (Pair dir) files"
proof (induction files arbitrary: m w cs)
  case Nil
  then show ?case by (simp add: ret_def proj_defs)
next
  case (Cons f files)
  obtain c e wa where p: "ext_Parse E dir f w = ((c, e), wa)"
    by (metis prod.exhaust)
  with Cons.prems have e: "e = None"
    by (cases e) simp_all
  from Cons.prems p e obtain cs' where rest: "parseAll E dir files wa = Some (cs', w1)"
    and cs: "cs = c # cs'"
    by (auto split: option.splits)
  from Cons.IH [OF rest, of "addServices networkIDMap (Services c) m"]
  obtain m' t where run: "createNetworkServiceMap_loop E dir files networkIDMap
      (addServices networkIDMap (Services c) m) wa = (Inr m', w1, t)"
    and t: "parsedConfigs t = cs'" "parses t = map (Pair dir) files"
    by blast
  from p e have "parse_body E dir f w = (Inr c, wa, [ParseCall dir f c None])"
    by (simp add: parse_body_ok)
  then have "createNetworkServiceMap_loop E dir (f # files) networkIDMap m w =
      (Inr m', w1, [ParseCall dir f c None] @ t)"
    by (simp add: bind_Inr [where m = "parse_body E dir f"] run)
  moreover have "parsedConfigs [ParseCall dir f c None :: 'b event] = [c]"
    by (simp add: parsedConfigs_def)
  with parsedConfigs_append [of "[ParseCall dir f c None]" t]
  have "parsedConfigs ([ParseCall dir f c None] @ t) = cs"
    by (simp add: t cs)
  moreover have "parses [ParseCall dir f c None :: 'b event] = [(dir, f)]"
    by (simp add: parses_def)
  with parses_append [of "[ParseCall dir f c None]" t]
  have "parses ([ParseCall dir f c None] @ t) = map (Pair dir) (f # files)"
    by (simp add: t)
  ultimately show ?case by blast
qed

lemma createNetworkServiceMap_loop_parseAll_None:
  "parseAll E dir files w = None \<Longrightarrow>
     \<exists>msg w' t. createNetworkServiceMap_loop E dir files networkIDMap m w = (Inl (Fatal msg), w', t)"
proof (induction files arbitrary: m w)
  case Nil
  then show ?case by simp
next
  case (Cons f files)
  obtain c e wa where p: "ext_Parse E dir f w = ((c, e), wa)"
    by (metis prod.exhaust)
  show ?case
  proof (cases e)
    case (Some x)
    with p show ?thesis
      by (simp add: bind_Inl [where m = "parse_body E dir f", OF parse_body_failed])
  next
    case None
    with Cons.prems p have "parseAll E dir files wa = None"
      by (auto split: option.splits)
    from Cons.IH [OF this, of "addServices networkIDMap (Services c) m"]
    obtain msg w' t where "createNetworkServiceMap_loop E dir files networkIDMap
      (addServices networkIDMap (Services c) m) wa = (Inl (Fatal msg), w', t)"
      by blast
    with p None show ?thesis
      by (simp add: bind_Inr [where m = "parse_body E dir f", OF parse_body_ok])
  qed
qed

lemma createNetworkServiceMap_parseAll:
  assumes "parseAll E (p_Directory project) (p_DockerComposeFilenames project) w = Some (cs, w1)"
  shows "\<exists>m t. createNetworkServiceMap E devConfig project networkIDMap w = (Inr m, w1, t) \<and>
       parsedConfigs t = cs \<and>
       parses t = map (Pair (p_Directory project)) (p_DockerComposeFilenames project)"
  unfolding createNetworkServiceMap_def
  using createNetworkServiceMap_loop_parseAll [OF assms] .

lemma remove_loop_abort:
  "remove_loop E networkIDMap entries w = (Inl a, w', t) \<Longrightarrow>
     \<exists>e \<in> set (removalErrors t). a = Fatal e"
proof (induction entries arbitrary: w t)
  case Nil
  then show ?case by (simp add: ret_def)
next
  case (Cons en entries)
  obtain name services where en: "en = (name, services)" by (cases en)
  from Cons.prems [unfolded en remove_loop.simps] show ?case
  proof (cases rule: bindE)
    case (stop b)
    from remove_body_run [OF stop(1)] stop(2) show ?thesis
      by (auto simp: removalErrors_def)
  next
    case (go u w1 t1 t2)
    from Cons.IH [OF go(2)] show ?thesis
      by (auto simp: go(3) removalErrors_append)
  qed
qed

text \<open>The removal calls of a run of verifyContainerConfig.\<close>

lemma verifyContainerConfig_run:
  assumes "verifyContainerConfig E appConfig project networkIDMap w = (r, w', t)"
  shows "(\<forall>(name, networkID, services) \<in> set (removals t).
            map_of networkIDMap name = Some networkID \<and>
            services = dependentServices name (parsedConfigs t) \<and> services \<noteq> []) \<and>
         distinct (map fst (removals t)) \<and>
         (r = Inr () \<longrightarrow>
            (\<forall>name \<in> fst ` set networkIDMap.
               dependentServices name (parsedConfigs t) \<noteq> [] \<longrightarrow> name \<in> fst ` set (removals t))) \<and>
         (\<forall>e \<in> set (removalErrors t). r = Inl (Fatal e))"
  using assms
proof (cases rule: verifyContainerConfig_cases)
  case none
  then show ?thesis by (simp add: proj_defs removalErrors_def)
next
  case (stop x)
  from createNetworkServiceMap_trace(5) [OF stop(2)]
    createNetworkServiceMap_loop_no_errors [OF stop(2) [unfolded createNetworkServiceMap_def]]
  show ?thesis by (simp add: stop(3))
next
  case (go m w1 t1 t2)
  note res = createNetworkServiceMap_result [OF go(2)]
  note loop = remove_loop_run [OF go(3)]
  have rem: "removals t = removals t2"
    using createNetworkServiceMap_trace(5) [OF go(2)] by (simp add: go(4) removals_append)
  have cfg: "parsedConfigs t = parsedConfigs t1"
    using loop by (simp add: go(4) parsedConfigs_append)
  have errs: "removalErrors t = removalErrors t2"
    using createNetworkServiceMap_loop_no_errors [OF go(2) [unfolded createNetworkServiceMap_def]]
    by (simp add: go(4) removalErrors_append)
  have sub: "set (removals t2) \<subseteq> removal_of networkIDMap ` set m"
    using set_mono_prefix [of "removals t2" "map (removal_of networkIDMap) (rangeMap E m)"] loop
    by (simp add: set_rangeMap)
  have entry: "map_of networkIDMap name = Some (id_of networkIDMap name) \<and>
      services = dependentServices name (parsedConfigs t1) \<and> services \<noteq> []"
    if "(name, services) \<in> set m" for name services
  proof -
    from that have "name \<in> fst ` set m" by (auto intro: rev_image_eqI)
    with res(2) have d: "name \<in> fst ` set networkIDMap" by blast
    from services_of_entry [OF res(3) that] res(1) [of name] d
    have "services = dependentServices name (parsedConfigs t1)" by simp
    moreover from res(4) that have "services \<noteq> []" by auto
    ultimately show ?thesis using map_of_id_of [OF d] by simp
  qed
  have a: "\<forall>(name, networkID, services) \<in> set (removals t).
            map_of networkIDMap name = Some networkID \<and>
            services = dependentServices name (parsedConfigs t) \<and> services \<noteq> []"
    unfolding rem cfg
  proof (intro ballI, clarify)
    fix name networkID services
    assume "(name, networkID, services) \<in> set (removals t2)"
    with sub obtain en where en: "en \<in> set m" "(name, networkID, services) = removal_of networkIDMap en"
      by blast
    from en(2) have e: "en = (name, services)" and i: "networkID = id_of networkIDMap name"
      by (simp_all add: removal_of_def prod_eq_iff)
    from en(1) have "(name, services) \<in> set m"
      unfolding e .
    from entry [OF this]
    show "map_of networkIDMap name = Some networkID \<and>
      services = dependentServices name (parsedConfigs t1) \<and> services \<noteq> []"
      unfolding i .
  qed
  have fsts: "fst \<circ> removal_of networkIDMap = fst"
    by (rule ext) (simp add: removal_of_def)
  from loop have "prefix (removals t2) (map (removal_of networkIDMap) (rangeMap E m))"
    by simp
  from map_mono_prefix [OF this, of fst]
  have "prefix (map fst (removals t2)) (map fst (rangeMap E m))"
    by (simp add: fsts)
  moreover from res(3) have "distinct (map fst (rangeMap E m))"
    by (simp only: distinct_rangeMap)
  ultimately have b: "distinct (map fst (removals t))"
    unfolding rem by (rule distinct_prefix)
  have c: "name \<in> fst ` set (removals t)"
    if "r = Inr ()" "name \<in> fst ` set networkIDMap"
      "dependentServices name (parsedConfigs t) \<noteq> []" for name
  proof -
    from res(1) [of name] that have "services_of m name \<noteq> []" by (simp add: cfg)
    then have "name \<in> fst ` set m" by (rule services_of_keys)
    moreover from loop that(1) have "removals t = map (removal_of networkIDMap) (rangeMap E m)"
      by (simp add: rem)
    ultimately show ?thesis
      by (simp add: set_rangeMap image_image removal_of_def)
  qed
  from loop have d: "\<forall>e \<in> set (removalErrors t). r = Inl (Fatal e)"
    by (simp add: errs)
  from a b c d show ?thesis by blast
qed

text \<open>A run of verifyContainerConfig, read against what the parser answers.\<close>

lemma verifyContainerConfig_parsed:
  assumes run: "verifyContainerConfig E appConfig project networkIDMap w = (r, w', t)"
    and pa: "parseAll E (p_Directory project) (p_DockerComposeFilenames project) w = Some (cs, w1)"
  shows "networkIDMap \<noteq> [] \<longrightarrow> parsedConfigs t = cs \<and>
           parses t = map (Pair (p_Directory project)) (p_DockerComposeFilenames project)"
    and "\<forall>(name, networkID, services) \<in> set (removals t).
           map_of networkIDMap name = Some networkID \<and>
           services = dependentServices name cs \<and> services \<noteq> []"
    and "r = Inr () \<longrightarrow>
           (\<forall>name \<in> fst ` set networkIDMap. dependentServices name cs \<noteq> [] \<longrightarrow>
              (name, id_of networkIDMap name, dependentServices name cs) \<in> set (removals t))"
    and "\<forall>a. r = Inl a \<longrightarrow> (\<exists>e \<in> set (removalErrors t). a = Fatal e)"
proof -
  from createNetworkServiceMap_parseAll [OF pa, of appConfig networkIDMap]
  obtain m0 t0 where c0: "createNetworkServiceMap E appConfig project networkIDMap w = (Inr m0, w1, t0)"
    and p0: "parsedConfigs t0 = cs"
      "parses t0 = map (Pair (p_Directory project)) (p_DockerComposeFilenames project)"
    by blast
  note old = verifyContainerConfig_run [OF run]
  from run have "(networkIDMap \<noteq> [] \<longrightarrow> parsedConfigs t = cs \<and>
           parses t = map (Pair (p_Directory project)) (p_DockerComposeFilenames project)) \<and>
    (r = Inr () \<longrightarrow>
           (\<forall>name \<in> fst ` set networkIDMap. dependentServices name cs \<noteq> [] \<longrightarrow>
              (name, id_of networkIDMap name, dependentServices name cs) \<in> set (removals t))) \<and>
    (\<forall>a. r = Inl a \<longrightarrow> (\<exists>e \<in> set (removalErrors t). a = Fatal e))"
  proof (cases rule: verifyContainerConfig_cases)
    case none
    then show ?thesis by simp
  next
    case (stop x)
    with c0 show ?thesis by simp
  next
    case (go m wa t1 t2)
    from go(2) c0 have eq: "m = m0" "wa = w1" "t1 = t0"
      by simp_all
    note res = createNetworkServiceMap_result [OF go(2)]
    note loop = remove_loop_run [OF go(3)]
    have rem: "removals t = removals t2"
      using createNetworkServiceMap_trace(5) [OF go(2)] by (simp add: go(4) removals_append)
    from loop have tie: "parsedConfigs t = cs"
      "parses t = map (Pair (p_Directory project)) (p_DockerComposeFilenames project)"
      by (simp_all add: go(4) parsedConfigs_append parses_append eq p0)
    have errs: "removalErrors t = removalErrors t2"
      using createNetworkServiceMap_loop_no_errors [OF go(2) [unfolded createNetworkServiceMap_def]]
      by (simp add: go(4) removalErrors_append)
    have issued: "(name, id_of networkIDMap name, dependentServices name cs) \<in> set (removals t)"
      if ok: "r = Inr ()" and d: "name \<in> fst ` set networkIDMap"
        and ne: "dependentServices name cs \<noteq> []" for name
    proof -
      from res(1) [of name] d have s: "services_of m name = dependentServices name cs"
        by (simp add: eq p0)
      with ne have "services_of m name \<noteq> []" by simp
      then have "name \<in> fst ` set m" by (rule services_of_keys)
      then obtain l where l: "(name, l) \<in> set m" by auto
      from services_of_entry [OF res(3) l] s have "l = dependentServices name cs"
        by simp
      with l have "(name, dependentServices name cs) \<in> set (rangeMap E m)"
        by (simp add: set_rangeMap)
      then have "removal_of networkIDMap (name, dependentServices name cs)
          \<in> set (map (removal_of networkIDMap) (rangeMap E m))"
        by (simp only: set_map image_eqI)
      moreover from loop ok have "removals t = map (removal_of networkIDMap) (rangeMap E m)"
        by (simp add: rem)
      ultimately show ?thesis
        by (simp add: removal_of_def)
    qed
    have abort: "\<exists>e \<in> set (removalErrors t). a = Fatal e" if "r = Inl a" for a
      using remove_loop_abort [of E networkIDMap "rangeMap E m" wa a w' t2] go(3) that
      by (simp add: errs)
    from tie issued abort show ?thesis by blast
  qed
  then show "networkIDMap \<noteq> [] \<longrightarrow> parsedConfigs t = cs \<and>
           parses t = map (Pair (p_Directory project)) (p_DockerComposeFilenames project)"
    and c: "r = Inr () \<longrightarrow>
           (\<forall>name \<in> fst ` set networkIDMap. dependentServices name cs \<noteq> [] \<longrightarrow>
              (name, id_of networkIDMap name, dependentServices name cs) \<in> set (removals t))"
    and "\<forall>a. r = Inl a \<longrightarrow> (\<exists>e \<in> set (removalErrors t). a = Fatal e)"
    by simp_all
  show "\<forall>(name, networkID, services) \<in> set (removals t).
           map_of networkIDMap name = Some networkID \<and>
           services = dependentServices name cs \<and> services \<noteq> []"
  proof (cases "networkIDMap = []")
    case True
    with run have "t = []"
      by (simp add: verifyContainerConfig_def ret_def)
    then show ?thesis by (simp add: removals_def)
  next
    case False
    with \<open>networkIDMap \<noteq> [] \<longrightarrow> parsedConfigs t = cs \<and>
           parses t = map (Pair (p_Directory project)) (p_DockerComposeFilenames project)\<close>
    have "parsedConfigs t = cs" by simp
    with old show ?thesis by simp
  qed
qed

lemma verifyContainerConfig_unparsed:
  assumes run: "verifyContainerConfig E appConfig project networkIDMap w = (r, w', t)"
    and pa: "parseAll E (p_Directory project) (p_DockerComposeFilenames project) w = None"
  shows "removals t = [] \<and> (networkIDMap \<noteq> [] \<longrightarrow> (\<exists>msg. r = Inl (Fatal msg)))"
proof -
  from createNetworkServiceMap_loop_parseAll_None [OF pa, of networkIDMap "[]"]
  obtain msg wa ta where
    c0: "createNetworkServiceMap E appConfig project networkIDMap w = (Inl (Fatal msg), wa, ta)"
    unfolding createNetworkServiceMap_def by blast
  from run show ?thesis
  proof (cases rule: verifyContainerConfig_cases)
    case none
    then show ?thesis by (simp add: removals_def)
  next
    case (stop x)
    with c0 createNetworkServiceMap_trace(5) [OF stop(2)] show ?thesis by simp
  next
    case (go m wb t1 t2)
    with c0 show ?thesis by simp
  qed
qed

lemma references_count:
  "length (filter (\<lambda>a. a = serviceName) (references name s)) =
     (if s_Name s = serviceName then length (filter (\<lambda>k. k = name) (s_Networks s)) else 0)"
  by (simp add: references_def filter_map comp_def)

lemma dependentServices_count:
  "length (filter (\<lambda>a. a = serviceName) (dependentServices name cs)) =
     referenceCount name serviceName cs"
proof -
  have inner: "length (filter (\<lambda>a. a = serviceName) (concat (map (references name) ss))) =
      sum_list (map (\<lambda>s. if s_Name s = serviceName
        then length (filter (\<lambda>k. k = name) (s_Networks s)) else 0) ss)" for ss
    by (induction ss) (simp_all add: references_count)
  show ?thesis
    unfolding dependentServices_def referenceCount_def
    by (induction cs) (simp_all add: inner)
qed

lemma demo_parseAll:
  "parseAll demoExtern (p_Directory demoProject) (p_DockerComposeFilenames demoProject) demoWorld
     = Some ([demoCompose, demoCompose], demoWorld)"
  by (simp add: demoExtern_def demoProject_def)

lemma refusing_parseAll:
  "parseAll refusingExtern (p_Directory demoProject) (p_DockerComposeFilenames demoProject) demoWorld
     = Some ([demoCompose, demoCompose], demoWorld)"
  by (simp add: refusingExtern_def demoExtern_def demoProject_def)

lemma demo_verify:
  "verifyContainerConfig demoExtern demoConfig demoProject
      [(''x'', ''id-x''), (''z'', ''7f3a'')] demoWorld =
     (Inr (), demoWorld,
      [ParseCall ''/src/app'' ''a.yml'' demoCompose None,
       ParseCall ''/src/app'' ''b.yml'' demoCompose None,
       RemoveContainerIfRequiredCall ''x'' ''id-x'' [''A'', ''A''] None])"
  by (simp add: model_defs prog_defs demo_defs)

lemma refusing_verify:
  "verifyContainerConfig refusingExtern demoConfig demoProject
      [(''x'', ''id-x''), (''z'', ''7f3a'')] demoWorld =
     (Inl (Fatal ''container is running''), demoWorld,
      [ParseCall ''/src/app'' ''a.yml'' demoCompose None,
       ParseCall ''/src/app'' ''b.yml'' demoCompose None,
       RemoveContainerIfRequiredCall ''x'' ''id-x'' [''A'', ''A''] (Some ''container is running''),
       LogEntry FatalLevel ''container is running''])"
  by (simp add: model_defs prog_defs demo_defs refusingExtern_def)

lemma demo_dependents:
  "dependentServices ''x'' [demoCompose, demoCompose] = [''A'', ''A'']"
  "dependentServices ''z'' [demoCompose, demoCompose] = []"
  by (simp_all add: dependentServices_def references_def demoCompose_def)

text \<open>
  C8. Take a run of verifyContainerConfig and what the parser answers for the project's
  compose files. When it answers all of them: with a non-empty identity map the run has
  parsed exactly these files; every removal call is made for a declared network, with
  the identifier the identity map holds for it and with the list of the services that
  these files attach to it, and that list is not empty, so a declared network without
  dependent services gets no call; when the run returns, the call has been made for
  every declared network that has a dependent service; and the run returns unless a
  removal call returned an error. When the parser refuses a file, no removal call is
  made and the run ends with a fatal error. In every run no network gets two calls,
  and a removal call that returns an error ends the run with that error.
\<close>

theorem verifyContainerConfig_removals:
  assumes "verifyContainerConfig E appConfig project networkIDMap w = (r, w', t)"
  shows "(\<forall>cs w1.
            parseAll E (p_Directory project) (p_DockerComposeFilenames project) w = Some (cs, w1) \<longrightarrow>
            (networkIDMap \<noteq> [] \<longrightarrow> parsedConfigs t = cs \<and>
               parses t = map (Pair (p_Directory project)) (p_DockerComposeFilenames project)) \<and>
            (\<forall>(name, networkID, services) \<in> set (removals t).
               map_of networkIDMap name = Some networkID \<and>
               services = dependentServices name cs \<and> services \<noteq> []) \<and>
            (r = Inr () \<longrightarrow>
               (\<forall>name \<in> fst ` set networkIDMap. dependentServices name cs \<noteq> [] \<longrightarrow>
                  (name, id_of networkIDMap name, dependentServices name cs) \<in> set (removals t))) \<and>
            (\<forall>a. r = Inl a \<longrightarrow> (\<exists>e \<in> set (removalErrors t). a = Fatal e))) \<and>
         (parseAll E (p_Directory project) (p_DockerComposeFilenames project) w = None \<longrightarrow>
            removals t = [] \<and> (networkIDMap \<noteq> [] \<longrightarrow> (\<exists>msg. r = Inl (Fatal msg)))) \<and>
         distinct (map fst (removals t)) \<and>
         (\<forall>e \<in> set (removalErrors t). r = Inl (Fatal e))"
proof (intro conjI allI impI)
  fix cs w1
  assume pa: "parseAll E (p_Directory project) (p_DockerComposeFilenames project) w = Some (cs, w1)"
  note parsed = verifyContainerConfig_parsed [OF assms pa]
  from parsed(1) show "networkIDMap \<noteq> [] \<Longrightarrow> parsedConfigs t = cs"
    and "networkIDMap \<noteq> [] \<Longrightarrow>
      parses t = map (Pair (p_Directory project)) (p_DockerComposeFilenames project)"
    by simp_all
  from parsed(2) show "\<forall>(name, networkID, services) \<in> set (removals t).
               map_of networkIDMap name = Some networkID \<and>
               services = dependentServices name cs \<and> services \<noteq> []" .
  from parsed(3) show "r = Inr () \<Longrightarrow>
      \<forall>name \<in> fst ` set networkIDMap. dependentServices name cs \<noteq> [] \<longrightarrow>
         (name, id_of networkIDMap name, dependentServices name cs) \<in> set (removals t)"
    by simp
  from parsed(4) show "\<And>a. r = Inl a \<Longrightarrow> \<exists>e \<in> set (removalErrors t). a = Fatal e"
    by simp
next
  assume pa: "parseAll E (p_Directory project) (p_DockerComposeFilenames project) w = None"
  from verifyContainerConfig_unparsed [OF assms pa]
  show "removals t = []" and "networkIDMap \<noteq> [] \<Longrightarrow> \<exists>msg. r = Inl (Fatal msg)"
    by simp_all
next
  from verifyContainerConfig_run [OF assms]
  show "distinct (map fst (removals t))" and "\<forall>e \<in> set (removalErrors t). r = Inl (Fatal e)"
    by simp_all
qed

theorem verifyContainerConfig_removals_witness:
  "verifyContainerConfig demoExtern demoConfig demoProject
      [(''x'', ''id-x''), (''z'', ''7f3a'')] demoWorld =
     (Inr (), demoWorld,
      [ParseCall ''/src/app'' ''a.yml'' demoCompose None,
       ParseCall ''/src/app'' ''b.yml'' demoCompose None,
       RemoveContainerIfRequiredCall ''x'' ''id-x'' [''A'', ''A''] None]) \<and>
   parseAll demoExtern (p_Directory demoProject) (p_DockerComposeFilenames demoProject) demoWorld
     = Some ([demoCompose, demoCompose], demoWorld) \<and>
   dependentServices ''x'' [demoCompose, demoCompose] = [''A'', ''A''] \<and>
   dependentServices ''z'' [demoCompose, demoCompose] = [] \<and>
   (''x'', ''id-x'', [''A'', ''A'']) \<in> set (removals (snd (snd
      (verifyContainerConfig demoExtern demoConfig demoProject
         [(''x'', ''id-x''), (''z'', ''7f3a'')] demoWorld)))) \<and>
   removals (snd (snd
      (verifyContainerConfig demoExtern demoConfig demoProject
         [(''x'', ''id-x''), (''z'', ''7f3a'')] demoWorld)))
     = [(''x'', ''id-x'', [''A'', ''A''])] \<and>
   fst (verifyContainerConfig refusingExtern demoConfig demoProject
      [(''x'', ''id-x''), (''z'', ''7f3a'')] demoWorld) = Inl (Fatal ''container is running'')"
proof -
  have x: "''x'' \<in> fst ` set [(''x'', ''id-x''), (''z'', ''7f3a'')]"
    by simp
  from verifyContainerConfig_removals [OF demo_verify] demo_parseAll x demo_dependents
  have issued: "(''x'', ''id-x'', [''A'', ''A'']) \<in> set (removals (snd (snd
      (verifyContainerConfig demoExtern demoConfig demoProject
         [(''x'', ''id-x''), (''z'', ''7f3a'')] demoWorld))))"
    by (auto simp: id_of_def demo_verify)
  have e: "''container is running'' \<in> set (removalErrors (snd (snd
      (verifyContainerConfig refusingExtern demoConfig demoProject
         [(''x'', ''id-x''), (''z'', ''7f3a'')] demoWorld))))"
    by (simp add: refusing_verify removalErrors_def)
  from verifyContainerConfig_removals [OF refusing_verify] e
  have stop: "fst (verifyContainerConfig refusingExtern demoConfig demoProject
      [(''x'', ''id-x''), (''z'', ''7f3a'')] demoWorld) = Inl (Fatal ''container is running'')"
    by (simp add: refusing_verify)
  from issued stop show ?thesis
    by (simp add: demo_verify demo_parseAll demo_dependents removals_def)
qed

text \<open>
  C10. The service map is not deduplicated. When the parser answers all the compose
  files of the project, createNetworkServiceMap returns, and the list it holds for a
  declared network is the list of the references that these files make to the network,
  one entry for every reference, in the order of the files: a service name occurs in it
  as many times as the files attach a service of that name to the network, so a service
  that two files attach to the network is in the list twice. The list of a removal call
  of verifyContainerConfig is that same list, and a returning run has made the call
  with it for every declared network that has a reference.
\<close>

theorem createNetworkServiceMap_keeps_duplicates:
  assumes "parseAll E (p_Directory project) (p_DockerComposeFilenames project) w = Some (cs, w1)"
  shows "(\<exists>m t. createNetworkServiceMap E devConfig project networkIDMap w = (Inr m, w1, t) \<and>
            parsedConfigs t = cs \<and>
            (\<forall>name \<in> fst ` set networkIDMap.
               services_of m name = dependentServices name cs \<and>
               (\<forall>serviceName. length (filter (\<lambda>a. a = serviceName) (services_of m name)) =
                  referenceCount name serviceName cs))) \<and>
         (\<forall>r w2 t2. verifyContainerConfig E devConfig project networkIDMap w = (r, w2, t2) \<longrightarrow>
            (\<forall>(n, networkID, services) \<in> set (removals t2).
               services = dependentServices n cs \<and>
               (\<forall>serviceName. length (filter (\<lambda>a. a = serviceName) services) =
                  referenceCount n serviceName cs)) \<and>
            (r = Inr () \<longrightarrow>
               (\<forall>n \<in> fst ` set networkIDMap. dependentServices n cs \<noteq> [] \<longrightarrow>
                  (n, id_of networkIDMap n, dependentServices n cs) \<in> set (removals t2))))"
proof (intro conjI allI impI)
  from createNetworkServiceMap_parseAll [OF assms, of devConfig networkIDMap]
  obtain m t where run: "createNetworkServiceMap E devConfig project networkIDMap w = (Inr m, w1, t)"
    and p: "parsedConfigs t = cs"
    by blast
  have "services_of m name = dependentServices name cs \<and>
      (\<forall>serviceName. length (filter (\<lambda>a. a = serviceName) (services_of m name)) =
         referenceCount name serviceName cs)"
    if "name \<in> fst ` set networkIDMap" for name
    using createNetworkServiceMap_result(1) [OF run, of name] that
    by (simp add: p dependentServices_count)
  with run p show "\<exists>m t. createNetworkServiceMap E devConfig project networkIDMap w = (Inr m, w1, t) \<and>
            parsedConfigs t = cs \<and>
            (\<forall>name \<in> fst ` set networkIDMap.
               services_of m name = dependentServices name cs \<and>
               (\<forall>serviceName. length (filter (\<lambda>a. a = serviceName) (services_of m name)) =
                  referenceCount name serviceName cs))"
    by blast
next
  fix r w2 t2
  assume v: "verifyContainerConfig E devConfig project networkIDMap w = (r, w2, t2)"
  note parsed = verifyContainerConfig_parsed [OF v assms]
  from parsed(2) show "\<forall>(n, networkID, services) \<in> set (removals t2).
               services = dependentServices n cs \<and>
               (\<forall>serviceName. length (filter (\<lambda>a. a = serviceName) services) =
                  referenceCount n serviceName cs)"
    by (auto simp: dependentServices_count)
  from parsed(3) show "r = Inr () \<Longrightarrow>
      \<forall>n \<in> fst ` set networkIDMap. dependentServices n cs \<noteq> [] \<longrightarrow>
         (n, id_of networkIDMap n, dependentServices n cs) \<in> set (removals t2)"
    by simp
qed

lemma demo_createNetworkServiceMap:
  "createNetworkServiceMap demoExtern demoConfig demoProject
      [(''x'', ''id-x''), (''z'', ''7f3a'')] demoWorld =
     (Inr [(''x'', [''A'', ''A''])], demoWorld,
      [ParseCall ''/src/app'' ''a.yml'' demoCompose None,
       ParseCall ''/src/app'' ''b.yml'' demoCompose None])"
  by (simp add: model_defs prog_defs demo_defs)

theorem createNetworkServiceMap_keeps_duplicates_witness:
  "parseAll demoExtern (p_Directory demoProject) (p_DockerComposeFilenames demoProject) demoWorld
     = Some ([demoCompose, demoCompose], demoWorld) \<and>
   createNetworkServiceMap demoExtern demoConfig demoProject
      [(''x'', ''id-x''), (''z'', ''7f3a'')] demoWorld =
     (Inr [(''x'', [''A'', ''A''])], demoWorld,
      [ParseCall ''/src/app'' ''a.yml'' demoCompose None,
       ParseCall ''/src/app'' ''b.yml'' demoCompose None]) \<and>
   services_of [(''x'', [''A'', ''A''])] ''x'' = dependentServices ''x'' [demoCompose, demoCompose] \<and>
   dependentServices ''x'' [demoCompose, demoCompose] = [''A'', ''A''] \<and>
   referenceCount ''x'' ''A'' [demoCompose, demoCompose] = 2 \<and>
   (''x'', ''id-x'', [''A'', ''A'']) \<in> set (removals (snd (snd
      (verifyContainerConfig demoExtern demoConfig demoProject
         [(''x'', ''id-x''), (''z'', ''7f3a'')] demoWorld))))"
proof -
  have x: "''x'' \<in> fst ` set [(''x'', ''id-x''), (''z'', ''7f3a'')]"
    by simp
  note inst = createNetworkServiceMap_keeps_duplicates
    [OF demo_parseAll, of demoConfig "[(''x'', ''id-x''), (''z'', ''7f3a'')]"]
  from inst demo_createNetworkServiceMap x
  have s: "services_of [(''x'', [''A'', ''A''])] ''x'' = dependentServices ''x'' [demoCompose, demoCompose]"
    by auto
  from inst demo_verify x demo_dependents
  have r: "(''x'', ''id-x'', [''A'', ''A'']) \<in> set (removals (snd (snd
      (verifyContainerConfig demoExtern demoConfig demoProject
         [(''x'', ''id-x''), (''z'', ''7f3a'')] demoWorld))))"
    by (auto simp: id_of_def)
  have c: "referenceCount ''x'' ''A'' [demoCompose, demoCompose] = 2"
    by (simp add: referenceCount_def demoCompose_def)
  from s r c show ?thesis
    by (simp add: demo_parseAll demo_createNetworkServiceMap demo_dependents)
qed

subsection \<open>Up\<close>

lemma subseq_distinct: "subseq xs ys \<Longrightarrow> distinct ys \<Longrightarrow> distinct xs"
proof (induction rule: list_emb.induct)
  case (list_emb_Cons2 x y xs ys)
  then show ?case
    using list_emb_set [of "(=)" xs ys x] by auto
qed simp_all


lemma networksCreate_loop_trace:
  "networksCreate_loop E nets m w = (r, w', t) \<Longrightarrow>
     prefix (map fst (queries t)) (map fst nets) \<and>
     subseq (map (\<lambda>(n, opts, i). (n, opts)) (creations t)) nets \<and>
     logins t = [] \<and> parses t = [] \<and> removals t = [] \<and> composeRuns t = [] \<and>
     set (stages t) \<subseteq> {1}"
proof (induction nets arbitrary: m w r w' t)
  case Nil
  then show ?case by (simp add: ret_def proj_defs)
next
  case (Cons a nets)
  obtain name opts where a: "a = (name, opts)" by (cases a)
  from Cons.prems [unfolded a] show ?case
  proof (cases rule: networksCreate_loop_Cons)
    case (stop x)
    from networksCreate_body_run [OF stop(1)] show ?thesis
      by (auto simp: a proj_defs)
  next
    case (go i w1 t1 t2)
    note ih = Cons.IH [OF go(2)]
    from networksCreate_body_run [OF go(1)] ih show ?thesis
      by (auto simp: a go(3) proj_defs)
  qed
qed

lemma networksCreate_trace:
  assumes "networksCreate E appConfig w = (r, w', t)"
  shows "prefix (map fst (queries t)) (map fst (Networks appConfig))"
    and "subseq (map (\<lambda>(n, opts, i). (n, opts)) (creations t)) (Networks appConfig)"
    and "logins t = []" and "parses t = []" and "removals t = []" and "composeRuns t = []"
    and "set (stages t) \<subseteq> {1}"
  using networksCreate_loop_trace [OF assms [unfolded networksCreate_def]]
  by simp_all

lemma registriesLogin_trace:
  assumes "registriesLogin E appConfig w = (r, w', t)"
  shows "prefix (logins t) (map registry_key (Registries appConfig))"
    and "queries t = []" and "creations t = []" and "parses t = []" and "removals t = []"
    and "composeRuns t = []" and "set (stages t) \<subseteq> {0}"
  using registriesLogin_loop_run [OF assms [unfolded registriesLogin_def]]
  by simp_all

lemma verifyContainerConfig_trace:
  assumes "verifyContainerConfig E appConfig project networkIDMap w = (r, w', t)"
  shows "prefix (parses t) (map (Pair (p_Directory project)) (p_DockerComposeFilenames project))"
    and "distinct (map fst (removals t))"
    and "logins t = []" and "queries t = []" and "creations t = []" and "composeRuns t = []"
    and "set (stages t) \<subseteq> {2}"
proof -
  from verifyContainerConfig_run [OF assms] show "distinct (map fst (removals t))"
    by simp
  from assms have "prefix (parses t) (map (Pair (p_Directory project)) (p_DockerComposeFilenames project)) \<and>
    logins t = [] \<and> queries t = [] \<and> creations t = [] \<and> composeRuns t = [] \<and>
    set (stages t) \<subseteq> {2}"
  proof (cases rule: verifyContainerConfig_cases)
    case none
    then show ?thesis by (simp add: proj_defs)
  next
    case (stop x)
    from createNetworkServiceMap_trace [OF stop(2)] show ?thesis by simp
  next
    case (go m w1 t1 t2)
    from createNetworkServiceMap_trace [OF go(2)] remove_loop_run [OF go(3)]
    show ?thesis by (simp add: go(4) proj_append)
  qed
  then show "prefix (parses t) (map (Pair (p_Directory project)) (p_DockerComposeFilenames project))"
    and "logins t = []" and "queries t = []" and "creations t = []" and "composeRuns t = []"
    and "set (stages t) \<subseteq> {2}"
    by simp_all
qed

lemma runDockerCompose_run:
  assumes "runDockerCompose E imagePrefix cmd composePaths args w = (r, w', t)"
  shows "\<exists>returned. t = [RunDockerComposeCall imagePrefix cmd composePaths args returned] \<and>
           r = (if returned then Inr () else Inl Exited)"
proof -
  obtain returned w1 where
    e: "ext_runDockerCompose E imagePrefix cmd composePaths args w = (returned, w1)"
    by (cases "ext_runDockerCompose E imagePrefix cmd composePaths args w")
  from assms have "t = [RunDockerComposeCall imagePrefix cmd composePaths args returned] \<and>
      r = (if returned then Inr () else Inl Exited)"
    by (simp add: runDockerCompose_def e)
  then show ?thesis by (rule exI)
qed

text \<open>The ways a run of Up can go, stage by stage.\<close>

lemma Up_cases:
  assumes "Up E appConfig project tailLogs w = (r, w', t)"
  obtains
    (login) a where "registriesLogin E appConfig w = (Inl a, w', t)" "r = Inl a"
  | (network) w1 t1 a t2 where "registriesLogin E appConfig w = (Inr (), w1, t1)"
      "networksCreate E appConfig w1 = (Inl a, w', t2)" "r = Inl a" "t = t1 @ t2"
  | (verify) w1 t1 networkIDMap w2 t2 a t3 where
      "registriesLogin E appConfig w = (Inr (), w1, t1)"
      "networksCreate E appConfig w1 = (Inr networkIDMap, w2, t2)"
      "verifyContainerConfig E appConfig project networkIDMap w2 = (Inl a, w', t3)"
      "r = Inl a" "t = t1 @ t2 @ t3"
  | (compose) w1 t1 networkIDMap w2 t2 w3 t3 t4 where
      "registriesLogin E appConfig w = (Inr (), w1, t1)"
      "networksCreate E appConfig w1 = (Inr networkIDMap, w2, t2)"
      "verifyContainerConfig E appConfig project networkIDMap w2 = (Inr (), w3, t3)"
      "t = t1 @ t2 @ t3 @ t4"
      "(r = Inl Exited \<and>
        t4 = [RunDockerComposeCall (ImagePrefix appConfig) ''up''
               (p_DockerComposeFilenames project) [''-d''] False]) \<or>
       (\<not> tailLogs \<and> r = Inr () \<and>
        t4 = [RunDockerComposeCall (ImagePrefix appConfig) ''up''
               (p_DockerComposeFilenames project) [''-d''] True]) \<or>
       (tailLogs \<and> (\<exists>returned. r = (if returned then Inr () else Inl Exited) \<and>
        t4 = [RunDockerComposeCall (ImagePrefix appConfig) ''up''
               (p_DockerComposeFilenames project) [''-d''] True,
              RunDockerComposeCall (ImagePrefix appConfig) ''logs''
               (p_DockerComposeFilenames project) [''-f'', p_Name project] returned]))"
  using assms [unfolded Up_def]
proof (cases rule: bindE)
  case (stop a)
  then show ?thesis by (rule login)
next
  case l: (go u w1 t1 ta)
  from l(1) have l1: "registriesLogin E appConfig w = (Inr (), w1, t1)"
    by simp
  from l(2) show ?thesis
  proof (cases rule: bindE)
    case (stop a)
    from l1 stop(1) stop(2) show ?thesis
      by (rule network) (simp add: l(3))
  next
    case n: (go networkIDMap w2 t2 tb)
    from n(2) show ?thesis
    proof (cases rule: bindE)
      case (stop a)
      from l1 n(1) stop(1) stop(2) show ?thesis
        by (rule verify) (simp add: l(3) n(3))
    next
      case v: (go u' w3 t3 t4)
      from v(1) have v1:
        "verifyContainerConfig E appConfig project networkIDMap w2 = (Inr (), w3, t3)"
        by simp
      have t: "t = t1 @ t2 @ t3 @ t4"
        by (simp add: l(3) n(3) v(3))
      from v(2) have "(r = Inl Exited \<and>
            t4 = [RunDockerComposeCall (ImagePrefix appConfig) ''up''
               (p_DockerComposeFilenames project) [''-d''] False]) \<or>
          (\<not> tailLogs \<and> r = Inr () \<and>
            t4 = [RunDockerComposeCall (ImagePrefix appConfig) ''up''
               (p_DockerComposeFilenames project) [''-d''] True]) \<or>
          (tailLogs \<and> (\<exists>returned. r = (if returned then Inr () else Inl Exited) \<and>
            t4 = [RunDockerComposeCall (ImagePrefix appConfig) ''up''
               (p_DockerComposeFilenames project) [''-d''] True,
              RunDockerComposeCall (ImagePrefix appConfig) ''logs''
               (p_DockerComposeFilenames project) [''-f'', p_Name project] returned]))"
      proof (cases rule: bindE)
        case (stop a)
        from runDockerCompose_run [OF stop(1)] obtain returned where
          "t4 = [RunDockerComposeCall (ImagePrefix appConfig) ''up''
               (p_DockerComposeFilenames project) [''-d''] returned]"
          "Inl a = (if returned then Inr () else Inl Exited)"
          by blast
        then have "t4 = [RunDockerComposeCall (ImagePrefix appConfig) ''up''
               (p_DockerComposeFilenames project) [''-d''] False] \<and> a = Exited"
          by (cases returned) simp_all
        with stop(2) show ?thesis by simp
      next
        case c: (go u'' w4 t4a t4b)
        from runDockerCompose_run [OF c(1)] obtain returned where
          "t4a = [RunDockerComposeCall (ImagePrefix appConfig) ''up''
               (p_DockerComposeFilenames project) [''-d''] returned]"
          "Inr u'' = (if returned then Inr () else Inl Exited)"
          by blast
        then have up: "t4a = [RunDockerComposeCall (ImagePrefix appConfig) ''up''
               (p_DockerComposeFilenames project) [''-d''] True]"
          by (cases returned) simp_all
        show ?thesis
        proof (cases tailLogs)
          case True
          with c(2) have "runDockerCompose E (ImagePrefix appConfig) ''logs''
              (p_DockerComposeFilenames project) [''-f'', p_Name project] w4 = (r, w', t4b)"
            by simp
          from runDockerCompose_run [OF this] obtain returned where
            "t4b = [RunDockerComposeCall (ImagePrefix appConfig) ''logs''
               (p_DockerComposeFilenames project) [''-f'', p_Name project] returned]"
            "r = (if returned then Inr () else Inl Exited)"
            by blast
          with True up c(3) show ?thesis by simp
        next
          case False
          with c(2) have "r = Inr ()" "t4b = []"
            by (simp_all add: ret_def)
          with False up c(3) show ?thesis by simp
        qed
      qed
      with l1 n(1) v1 t show ?thesis
        by (rule compose)
    qed
  qed
qed







lemma demo_Up:
  "Up demoExtern demoConfig demoProject True demoWorld =
     (Inr (), [(''z'', ''7f3a''), (''x'', ''id-x'')],
      [LoginCall ''r1.example'' ''mirror'' ''wrong'' (Some ''denied''),
       LogEntry WarnLevel ''Failed to login to mirror registry: denied'',
       LoginCall ''r2.example'' ''main'' ''secret'' None,
       LogEntry DebugLevel ''Logged in to registry main at r2.example'',
       NetworkIDFromNameCall ''x'' '''' None,
       NetworkCreateCall ''x'' ''bridge'' ''id-x'' None,
       LogEntry InfoLevel ''Created x network id-x'',
       NetworkIDFromNameCall ''z'' ''7f3a'' None,
       LogEntry DebugLevel ''Network z already exists with id 7f3a'',
       ParseCall ''/src/app'' ''a.yml'' demoCompose None,
       ParseCall ''/src/app'' ''b.yml'' demoCompose None,
       RemoveContainerIfRequiredCall ''x'' ''id-x'' [''A'', ''A''] None,
       RunDockerComposeCall ''dev'' ''up'' [''a.yml'', ''b.yml''] [''-d''] True,
       RunDockerComposeCall ''dev'' ''logs'' [''a.yml'', ''b.yml''] [''-f'', ''app''] True])"
  by (simp add: model_defs prog_defs demo_defs)




lemma distinct_Pair: "distinct (map (Pair d) xs) = distinct xs"
  by (simp add: distinct_map inj_on_def)

text \<open>The calls of a run of Up, kind by kind, against the configuration.\<close>

lemma Up_calls:
  assumes "Up E appConfig project tailLogs w = (r, w', t)"
  shows "prefix (logins t) (map registry_key (Registries appConfig)) \<and>
         prefix (map fst (queries t)) (map fst (Networks appConfig)) \<and>
         subseq (map (\<lambda>(n, opts, i). (n, opts)) (creations t)) (Networks appConfig) \<and>
         prefix (parses t)
           (map (Pair (p_Directory project)) (p_DockerComposeFilenames project)) \<and>
         distinct (map fst (removals t))"
  using assms
proof (cases rule: Up_cases)
  case (login a)
  from registriesLogin_trace [OF login(1)] show ?thesis
    by simp
next
  case (network w1 t1 a t2)
  from registriesLogin_trace [OF network(1)] networksCreate_trace [OF network(2)]
  show ?thesis
    by (simp add: network(4) proj_append)
next
  case (verify w1 t1 networkIDMap w2 t2 a t3)
  from registriesLogin_trace [OF verify(1)] networksCreate_trace [OF verify(2)]
    verifyContainerConfig_trace [OF verify(3)]
  show ?thesis
    by (simp add: verify(5) proj_append)
next
  case (compose w1 t1 networkIDMap w2 t2 w3 t3 t4)
  from compose(5) have t4: "logins t4 = []" "queries t4 = []" "creations t4 = []"
    "parses t4 = []" "removals t4 = []"
    by (auto simp: proj_defs)
  from registriesLogin_trace [OF compose(1)] networksCreate_trace [OF compose(2)]
    verifyContainerConfig_trace [OF compose(3)] t4
  show ?thesis
    by (simp add: compose(4) proj_append)
qed

text \<open>
  C9. No call is repeated in a run of Up. The logins are, in order, a beginning of the
  configured registry list: one attempt for each registry reached and no second one.
  In the same way the existence queries follow the declared networks and the parses
  follow the project's compose files; the creation calls are taken, in order, from the
  declared networks, each declaration at most once; and no network gets two removal
  calls. So when the registries, the network names and the compose files are pairwise
  different, no login, no query, no creation and no parse occurs twice.
\<close>

theorem Up_no_retry:
  assumes "Up E appConfig project tailLogs w = (r, w', t)"
  shows "prefix (logins t) (map registry_key (Registries appConfig)) \<and>
         prefix (map fst (queries t)) (map fst (Networks appConfig)) \<and>
         subseq (map (\<lambda>(n, opts, i). (n, opts)) (creations t)) (Networks appConfig) \<and>
         prefix (parses t)
           (map (Pair (p_Directory project)) (p_DockerComposeFilenames project)) \<and>
         distinct (map fst (removals t)) \<and>
         (distinct (map registry_key (Registries appConfig)) \<longrightarrow> distinct (logins t)) \<and>
         (distinct (map fst (Networks appConfig)) \<longrightarrow>
            distinct (map fst (queries t)) \<and> distinct (map fst (creations t))) \<and>
         (distinct (p_DockerComposeFilenames project) \<longrightarrow> distinct (parses t))"
proof -
  note calls = Up_calls [OF assms]
  from calls have l: "prefix (logins t) (map registry_key (Registries appConfig))"
    and q: "prefix (map fst (queries t)) (map fst (Networks appConfig))"
    and c: "subseq (map (\<lambda>(n, opts, i). (n, opts)) (creations t)) (Networks appConfig)"
    and p: "prefix (parses t)
           (map (Pair (p_Directory project)) (p_DockerComposeFilenames project))"
    by simp_all
  have "fst \<circ> (\<lambda>(n, opts, i). (n, opts)) = (fst :: string \<times> 'b \<times> string \<Rightarrow> string)"
    by (rule ext) (simp add: case_prod_beta)
  with subseq_map [OF c, of fst]
  have c': "subseq (map fst (creations t)) (map fst (Networks appConfig))"
    by simp
  have "distinct (logins t)" if "distinct (map registry_key (Registries appConfig))"
    using l that by (rule distinct_prefix)
  moreover have "distinct (map fst (queries t))" if "distinct (map fst (Networks appConfig))"
    using q that by (rule distinct_prefix)
  moreover have "distinct (map fst (creations t))" if "distinct (map fst (Networks appConfig))"
    using c' that by (rule subseq_distinct)
  moreover have "distinct (parses t)" if "distinct (p_DockerComposeFilenames project)"
    using p that by (simp add: distinct_prefix distinct_Pair)
  ultimately show ?thesis
    using calls by blast
qed

theorem Up_no_retry_witness:
  "logins (snd (snd (Up demoExtern demoConfig demoProject True demoWorld))) =
     [(''r1.example'', ''mirror'', ''wrong''), (''r2.example'', ''main'', ''secret'')] \<and>
   map fst (queries (snd (snd (Up demoExtern demoConfig demoProject True demoWorld)))) =
     [''x'', ''z''] \<and>
   creations (snd (snd (Up demoExtern demoConfig demoProject True demoWorld))) =
     [(''x'', ''bridge'', ''id-x'')] \<and>
   parses (snd (snd (Up demoExtern demoConfig demoProject True demoWorld))) =
     [(''/src/app'', ''a.yml''), (''/src/app'', ''b.yml'')] \<and>
   map fst (removals (snd (snd (Up demoExtern demoConfig demoProject True demoWorld)))) = [''x''] \<and>
   distinct (logins (snd (snd (Up demoExtern demoConfig demoProject True demoWorld)))) \<and>
   distinct (map fst (queries (snd (snd (Up demoExtern demoConfig demoProject True demoWorld))))) \<and>
   distinct (parses (snd (snd (Up demoExtern demoConfig demoProject True demoWorld))))"
proof -
  have d1: "distinct (map registry_key (Registries demoConfig))"
    by (simp add: demoConfig_def registry_key_def)
  have d2: "distinct (map fst (Networks demoConfig))"
    by (simp add: demoConfig_def)
  have d3: "distinct (p_DockerComposeFilenames demoProject)"
    by (simp add: demoProject_def)
  from Up_no_retry [OF demo_Up] d1 d2 d3
  have "distinct (logins (snd (snd (Up demoExtern demoConfig demoProject True demoWorld)))) \<and>
   distinct (map fst (queries (snd (snd (Up demoExtern demoConfig demoProject True demoWorld))))) \<and>
   distinct (parses (snd (snd (Up demoExtern demoConfig demoProject True demoWorld))))"
    by (simp add: demo_Up)
  then show ?thesis
    by (simp add: demo_Up proj_defs)
qed

end
